theory Spec2Isabelle
  imports Complex_Main "HOL-Library.Word" "HOL-Library.List_Lexorder" "HOL-Library.Char_ord"
    "HOL-Library.Product_Lexorder"
begin

section \<open>Split checker (split/split_checker.cc)\<close>

subsection \<open>Raw iterators and the merged iterator\<close>

text \<open>
  Keys are byte strings compared bytewise (lexicographic order on \<open>string\<close>).
  A column family is the list of its key-value pairs in key order.
\<close>

type_synonym kv_entry = "string \<times> string"

type_synonym raw_iterator = "kv_entry list"

text \<open>
  Modelled from the spec: the raw engine iterator (engine/raw_rocks_engine.h is not part
  of the sources at hand). "Bounds are honored": an iterator created with
  \<open>options.upper_bound = end_key\<close> stops being valid at the first key that is not
  below \<open>end_key\<close>, and \<open>Seek target\<close> positions it at the first key that is not below
  \<open>target\<close>.
\<close>

definition NewIterator :: "kv_entry list \<Rightarrow> string \<Rightarrow> raw_iterator" where
  "NewIterator cf upper_bound = takeWhile (\<lambda>e. fst e < upper_bound) cf"

definition IterSeek :: "raw_iterator \<Rightarrow> string \<Rightarrow> raw_iterator" where
  "IterSeek iter target = dropWhile (\<lambda>e. fst e < target) iter"

record Entry =
  iter_pos :: nat
  key :: string
  value_size :: nat

record MergedIterator =
  min_heap :: "Entry list"
  iters :: "raw_iterator list"

text \<open>
  Modelled from the spec: the ordering of \<open>Entry\<close> (split/split_checker.h is not part of
  the sources at hand). The heap is "a min-heap of per-CF iterators keyed by the encoded
  key": it is kept as a list in ascending key order, the top is its head.
\<close>

definition heap_push :: "Entry \<Rightarrow> Entry list \<Rightarrow> Entry list" where
  "heap_push e h = insort_key key e h"

text \<open>\<open>MergedIterator::Next(IteratorPtr iter, int iter_pos)\<close>\<close>

definition NextIter :: "nat \<Rightarrow> MergedIterator \<Rightarrow> MergedIterator" where
  "NextIter i m =
     (if i < length (iters m) then
        (case iters m ! i of
           [] \<Rightarrow> m
         | (k, v) # rest \<Rightarrow>
             m\<lparr>min_heap := heap_push \<lparr>iter_pos = i, key = k, value_size = length v\<rparr> (min_heap m),
               iters := (iters m)[i := rest]\<rparr>)
      else m)"

text \<open>The constructor opens one iterator per column family, bounded above by \<open>end_key\<close>.\<close>

definition MergedIterator_new :: "kv_entry list list \<Rightarrow> string \<Rightarrow> MergedIterator" where
  "MergedIterator_new cfs end_key =
     \<lparr>min_heap = [], iters = map (\<lambda>cf. NewIterator cf end_key) cfs\<rparr>"

definition SeekOne :: "string \<Rightarrow> MergedIterator \<Rightarrow> nat \<Rightarrow> MergedIterator" where
  "SeekOne target m i =
     NextIter i (m\<lparr>iters := (iters m)[i := IterSeek (iters m ! i) target]\<rparr>)"

definition Seek :: "MergedIterator \<Rightarrow> string \<Rightarrow> MergedIterator" where
  "Seek m target = foldl (SeekOne target) m [0..<length (iters m)]"

definition Valid :: "MergedIterator \<Rightarrow> bool" where
  "Valid m = (min_heap m \<noteq> [])"

text \<open>\<open>MergedIterator::Next()\<close>: pop the top, advance the iterator it came from.\<close>

definition Next :: "MergedIterator \<Rightarrow> MergedIterator" where
  "Next m =
     (case min_heap m of
        [] \<Rightarrow> m
      | entry # h \<Rightarrow> NextIter (iter_pos entry) (m\<lparr>min_heap := h\<rparr>))"

text \<open>
  \<open>Key()\<close> and \<open>KeyValueSize()\<close> read the top of the heap; the callers only use them
  on a valid iterator. \<open>KeyValueSize\<close> returns a \<open>uint32_t\<close>.
\<close>

definition EntryKeyValueSize :: "Entry \<Rightarrow> nat" where
  "EntryKeyValueSize e = (length (key e) + value_size e) mod 2 ^ 32"

definition remaining :: "MergedIterator \<Rightarrow> nat" where
  "remaining m = length (min_heap m) + sum_list (map length (iters m))"

lemma length_heap_push: "length (heap_push e h) = Suc (length h)"
  by (simp add: heap_push_def)

lemma sum_list_length_update:
  "i < length xs \<Longrightarrow> xs ! i = x # rest \<Longrightarrow>
   Suc (sum_list (map length (xs[i := rest]))) = sum_list (map length xs)"
  by (induction xs arbitrary: i) (auto simp: nth_Cons split: nat.splits)

lemma remaining_NextIter: "remaining (NextIter i m) = remaining m"
  by (auto simp: NextIter_def remaining_def length_heap_push sum_list_length_update
           split: list.splits)

lemma remaining_Next: "Valid m \<Longrightarrow> remaining (Next m) < remaining m"
  by (cases "min_heap m")
     (simp_all add: Valid_def Next_def remaining_NextIter, simp add: remaining_def)

text \<open>
  The entries a loop \<open>for (; iter.Valid(); iter.Next())\<close> sees at the top of the heap,
  in the order it sees them.
\<close>

function stream :: "MergedIterator \<Rightarrow> Entry list" where
  "stream m = (if Valid m then hd (min_heap m) # stream (Next m) else [])"
  by pat_completeness auto
termination
  by (relation "measure remaining") (auto simp: remaining_Next)

declare stream.simps [simp del]

text \<open>A loop \<open>for (; iter.Valid(); iter.Next()) body\<close> over a merged iterator.\<close>

function walk :: "('s \<Rightarrow> Entry \<Rightarrow> 's) \<Rightarrow> MergedIterator \<Rightarrow> 's \<Rightarrow> 's" where
  "walk body m s = (if Valid m then walk body (Next m) (body s (hd (min_heap m))) else s)"
  by pat_completeness auto
termination
  by (relation "measure (\<lambda>(body, m, s). remaining m)") (auto simp: remaining_Next)

declare walk.simps [simp del]

subsection \<open>The HALF and SIZE policies\<close>

record Range =
  start_key :: string
  end_key :: string

text \<open>
  The accumulators \<open>size\<close> and \<open>chunk_size\<close> are \<open>int64_t\<close>; they are modelled as
  unbounded integers (a walk would have to see more than \<open>2^63\<close> bytes to overflow
  them). \<open>count\<close> is a \<open>uint32_t\<close>.
\<close>

record HalfSplitChecker =
  split_threshold_size :: int
  split_chunk_size :: int

record half_loop =
  h_size :: int
  h_chunk_size :: int
  h_keys :: "string list"
  h_is_split :: bool
  h_prev_key :: string
  h_count :: "32 word"

definition half_body :: "HalfSplitChecker \<Rightarrow> half_loop \<Rightarrow> Entry \<Rightarrow> half_loop" where
  "half_body c s e =
     (let key_value_size = int (EntryKeyValueSize e);
          s1 = s\<lparr>h_size := h_size s + key_value_size,
                 h_chunk_size := h_chunk_size s + key_value_size\<rparr>;
          s2 = (if h_chunk_size s1 \<ge> split_chunk_size c
                then s1\<lparr>h_chunk_size := 0, h_keys := h_keys s1 @ [key e]\<rparr> else s1);
          s3 = (if h_size s2 \<ge> split_threshold_size c then s2\<lparr>h_is_split := True\<rparr> else s2)
      in if h_prev_key s3 \<noteq> key e
         then s3\<lparr>h_prev_key := key e, h_count := h_count s3 + 1\<rparr> else s3)"

text \<open>
  \<open>HalfSplitChecker::SplitKey\<close>; \<open>count\<close> and \<open>size\<close> are in-out parameters, the
  result is the returned key with their final values.
\<close>

definition HalfSplitKey ::
  "HalfSplitChecker \<Rightarrow> Range \<Rightarrow> kv_entry list list \<Rightarrow> 32 word \<Rightarrow> int \<Rightarrow> string \<times> 32 word \<times> int" where
  "HalfSplitKey c rng cfs count size0 =
     (let iter = Seek (MergedIterator_new cfs (end_key rng)) (start_key rng);
          s = walk (half_body c) iter
                \<lparr>h_size = size0, h_chunk_size = 0, h_keys = [], h_is_split = False,
                 h_prev_key = [], h_count = count\<rparr>;
          mid = length (h_keys s) div 2;
          split_key = (if h_keys s = [] then [] else h_keys s ! mid)
      in (if h_is_split s then split_key else [], h_count s, h_size s))"

subsection \<open>Single-precision arithmetic\<close>

text \<open>
  \<open>split_ratio_\<close> is a \<open>float\<close>, and \<open>split_size_ * split_ratio_\<close> converts the
  \<open>int64_t\<close> to \<open>float\<close> and multiplies in single precision. A finite \<open>float\<close> is
  a mantissa and an exponent, the number \<open>mantissa \<times> 2 ^ exponent\<close>. \<open>float_round\<close> is
  the rounding of IEEE 754 binary32 (a significand of 24 bits, the least exponent
  \<open>-149\<close>, to nearest, ties to even) of the number \<open>m \<times> 2 ^ e\<close>, with \<open>None\<close> for a
  number that rounds beyond the largest \<open>float\<close>, to infinity.
\<close>

record float32 =
  mantissa :: int
  exponent :: int

definition pow2 :: "int \<Rightarrow> rat" where
  "pow2 e = (if 0 \<le> e then 2 ^ nat e else 1 / 2 ^ nat (- e))"

definition float_value :: "float32 \<Rightarrow> rat" where
  "float_value f = of_int (mantissa f) * pow2 (exponent f)"

fun log2_floor :: "nat \<Rightarrow> nat" where
  "log2_floor n = (if n < 2 then 0 else Suc (log2_floor (n div 2)))"

declare log2_floor.simps [simp del]

text \<open>The number of bits of a positive integer.\<close>

definition bit_length :: "int \<Rightarrow> int" where
  "bit_length n = (if n \<le> 0 then 0 else int (Suc (log2_floor (nat n))))"

text \<open>\<open>n\<close> without its \<open>s\<close> lowest bits, rounded to nearest, ties to even.\<close>

definition round_shift :: "int \<Rightarrow> nat \<Rightarrow> int" where
  "round_shift n s =
     (if s = 0 then n
      else
        (let q = n div 2 ^ s; r = n mod 2 ^ s; h = 2 ^ (s - 1)
         in if r < h then q else if h < r then q + 1 else if even q then q else q + 1))"

definition float_round :: "int \<Rightarrow> int \<Rightarrow> float32 option" where
  "float_round m e =
     (if m = 0 then Some \<lparr>mantissa = 0, exponent = 0\<rparr>
      else
        (let s = nat (max (bit_length \<bar>m\<bar> - 24) (- 149 - e));
             q = round_shift \<bar>m\<bar> s;
             e' = e + int s
         in if 128 < bit_length q + e' then None
            else Some \<lparr>mantissa = (if m < 0 then - q else q), exponent = e'\<rparr>))"

text \<open>The product of two \<open>float\<close>s: the exact product, rounded.\<close>

definition float_mul :: "float32 \<Rightarrow> float32 \<Rightarrow> float32 option" where
  "float_mul a b = float_round (mantissa a * mantissa b) (exponent a + exponent b)"

text \<open>
  The conversion of a \<open>float\<close> to \<open>int64_t\<close> truncates towards zero; it is undefined
  for a value outside \<open>int64_t\<close>, the result \<open>None\<close>.
\<close>

definition float_to_int64 :: "float32 \<Rightarrow> int option" where
  "float_to_int64 f =
     (let m = mantissa f; e = exponent f;
          t = (if 0 \<le> e then m * 2 ^ nat e
               else if 0 \<le> m then m div 2 ^ nat (- e) else - ((- m) div 2 ^ nat (- e)))
      in if - (2 ^ 63) \<le> t \<and> t < 2 ^ 63 then Some t else None)"

subsection \<open>\<open>SizeSplitChecker\<close>\<close>

text \<open>
  \<open>int64_t split_pos = split_size_ * split_ratio_\<close>: \<open>split_size_\<close> is converted to
  \<open>float\<close>, the product is taken in single precision and converted to \<open>int64_t\<close>.
  (A \<open>split_ratio\<close> of the model that is no \<open>float\<close> is rounded to one first.) Where
  the product is infinite or the conversion undefined, \<open>split_pos\<close> is given the least
  \<open>int64_t\<close>, the value of the conversion instruction of x86-64; the statements about
  the SIZE policy are for checkers whose \<open>split_pos_value\<close> is defined.
\<close>

record SizeSplitChecker =
  split_size :: int
  split_ratio :: float32

definition split_pos_value :: "SizeSplitChecker \<Rightarrow> int option" where
  "split_pos_value c =
     (case float_round (split_size c) 0 of
        None \<Rightarrow> None
      | Some s \<Rightarrow>
          (case float_round (mantissa (split_ratio c)) (exponent (split_ratio c)) of
             None \<Rightarrow> None
           | Some r \<Rightarrow> (case float_mul s r of None \<Rightarrow> None | Some p \<Rightarrow> float_to_int64 p)))"

definition split_pos :: "SizeSplitChecker \<Rightarrow> int" where
  "split_pos c = (case split_pos_value c of None \<Rightarrow> - (2 ^ 63) | Some p \<Rightarrow> p)"

record size_loop =
  s_size :: int
  s_split_key :: string
  s_is_split :: bool
  s_prev_key :: string
  s_count :: "32 word"

definition size_body :: "SizeSplitChecker \<Rightarrow> size_loop \<Rightarrow> Entry \<Rightarrow> size_loop" where
  "size_body c s e =
     (let s1 = s\<lparr>s_size := s_size s + int (EntryKeyValueSize e)\<rparr>;
          s2 = (if s_split_key s1 = [] \<and> s_size s1 \<ge> split_pos c
                then s1\<lparr>s_split_key := key e\<rparr>
                else if s_size s1 \<ge> split_size c then s1\<lparr>s_is_split := True\<rparr> else s1)
      in if s_prev_key s2 \<noteq> key e
         then s2\<lparr>s_prev_key := key e, s_count := s_count s2 + 1\<rparr> else s2)"

definition SizeSplitKey ::
  "SizeSplitChecker \<Rightarrow> Range \<Rightarrow> kv_entry list list \<Rightarrow> 32 word \<Rightarrow> int \<Rightarrow> string \<times> 32 word \<times> int" where
  "SizeSplitKey c rng cfs count size0 =
     (let iter = Seek (MergedIterator_new cfs (end_key rng)) (start_key rng);
          s = walk (size_body c) iter
                \<lparr>s_size = size0, s_split_key = [], s_is_split = False,
                 s_prev_key = [], s_count = count\<rparr>
      in (if s_is_split s then s_split_key s else [], s_count s, s_size s))"

text \<open>The stream of a region: what the walk of its merged iterator visits.\<close>

definition region_stream :: "Range \<Rightarrow> kv_entry list list \<Rightarrow> Entry list" where
  "region_stream rng cfs =
     stream (Seek (MergedIterator_new cfs (end_key rng)) (start_key rng))"

definition total_size :: "Entry list \<Rightarrow> int" where
  "total_size es = sum_list (map (\<lambda>e. int (EntryKeyValueSize e)) es)"

text \<open>
  The candidates of the HALF policy in the spec's words: "every \<open>chunk_size\<close> bytes,
  remember the current key as a candidate". \<open>acc\<close> is what has been accumulated since
  the last candidate.
\<close>

fun chunk_candidates :: "int \<Rightarrow> int \<Rightarrow> Entry list \<Rightarrow> string list" where
  "chunk_candidates chunk acc [] = []"
| "chunk_candidates chunk acc (e # es) =
     (if chunk \<le> acc + int (EntryKeyValueSize e)
      then key e # chunk_candidates chunk 0 es
      else chunk_candidates chunk (acc + int (EntryKeyValueSize e)) es)"

text \<open>
  The index of the first entry at which the size accumulated from \<open>acc\<close> reaches
  \<open>pos\<close>.
\<close>

fun first_reach :: "int \<Rightarrow> int \<Rightarrow> Entry list \<Rightarrow> nat option" where
  "first_reach pos acc [] = None"
| "first_reach pos acc (e # es) =
     (if pos \<le> acc + int (EntryKeyValueSize e) then Some 0
      else map_option Suc (first_reach pos (acc + int (EntryKeyValueSize e)) es))"

text \<open>
  The SIZE policy in the spec's words: "split key = first key where accumulated
  \<open>size \<ge> threshold \<times> split_ratio\<close>; commit split if \<open>size \<ge> threshold\<close>", with
  the product of the two numbers.
\<close>

definition SizeSplitKey_spec :: "SizeSplitChecker \<Rightarrow> Entry list \<Rightarrow> string" where
  "SizeSplitKey_spec c es =
     (if split_size c \<le> total_size es
      then (case first_reach \<lceil>of_int (split_size c) * float_value (split_ratio c)\<rceil> 0 es of
              None \<Rightarrow> [] | Some j \<Rightarrow> key (es ! j))
      else [])"

text \<open>The key a SIZE walk returns from its final loop state.\<close>

definition size_result :: "size_loop \<Rightarrow> string" where
  "size_result s = (if s_is_split s then s_split_key s else [])"

text \<open>
  A predicate \<open>Q\<close> holds of every key a merged iterator still has to deliver, in the
  heap or in one of its raw iterators.
\<close>

definition keys_inv :: "(string \<Rightarrow> bool) \<Rightarrow> MergedIterator \<Rightarrow> bool" where
  "keys_inv Q m =
     ((\<forall>e\<in>set (min_heap m). Q (key e)) \<and> (\<forall>it\<in>set (iters m). \<forall>kv\<in>set it. Q (fst kv)))"

subsection \<open>The split check task\<close>

record Region =
  r_range :: Range
  r_epoch_version :: int
  r_disable_change :: bool
  r_temporary_disable_change :: bool
  r_state_normal :: bool
  r_mono_store :: bool

text \<open>
  What \<open>SplitCheck\<close> reads from outside the region object while it runs: the epoch
  version read again after the walk, the raft status, a flag and the number of running
  vector index tasks with its expected bound.
\<close>

record split_env =
  epoch_version_after :: int
  leader_and_follower_ok :: bool
  enable_region_split_and_merge_for_lite :: bool
  vector_index_task_running_num :: int
  vector_index_task_running_num_expect :: int

text \<open>
  Modelled from the spec: \<open>Region::CheckKeyInRange\<close> (the region class is not part of
  the sources at hand): the key lies in \<open>[start_key, end_key)\<close> of the region's plain
  range.
\<close>

definition CheckKeyInRange :: "Region \<Rightarrow> string \<Rightarrow> bool" where
  "CheckKeyInRange region k =
     (start_key (r_range region) \<le> k \<and> k < end_key (r_range region))"

datatype split_check_result =
  NotRun
  | DecodeKeyFatal
  | NoSplit string
  | SplitRegionRequest string

type_synonym split_checker =
  "Range \<Rightarrow> kv_entry list list \<Rightarrow> 32 word \<Rightarrow> int \<Rightarrow> string \<times> 32 word \<times> int"

text \<open>
  \<open>SplitCheckTask::SplitCheck\<close>. The codec (\<open>EncodeRange\<close>, \<open>DecodeKey\<close>) is not part
  of the sources at hand and is a parameter; \<open>DecodeKey\<close> returning false is a fatal log.
  The policy is the virtual \<open>SplitKey\<close> of the checker. The chain of checks is the
  source's \<open>do { ... } while (false)\<close> with its reasons; a request is sent only when
  every check passed. Metrics and logging are left out.
\<close>

definition split_checks :: "Region \<Rightarrow> split_env \<Rightarrow> string \<Rightarrow> string option" where
  "split_checks region env plain_split_key =
     (if plain_split_key = [] then Some ''split key is empty''
      else if epoch_version_after env \<noteq> r_epoch_version region then Some ''region version change''
      else if \<not> CheckKeyInRange region plain_split_key
        then Some ''invalid split key, not in region range''
      else if r_disable_change region then Some ''region disable split''
      else if r_temporary_disable_change region then Some ''region temporary disable split''
      else if \<not> r_state_normal region then Some ''region state is not normal''
      else if \<not> leader_and_follower_ok env then Some ''not leader or follower abnormal''
      else if r_mono_store region \<and> \<not> enable_region_split_and_merge_for_lite env
        then Some ''mono_store region disable split''
      else if vector_index_task_running_num env > vector_index_task_running_num_expect env
        then Some ''runing vector index task num too many''
      else None)"

definition SplitCheck ::
  "(Range \<Rightarrow> Range) \<Rightarrow> (string \<Rightarrow> string option) \<Rightarrow> split_checker option \<Rightarrow>
   kv_entry list list \<Rightarrow> Region option \<Rightarrow> split_env \<Rightarrow> split_check_result" where
  "SplitCheck EncodeRange DecodeKey split_checker cfs region_opt env =
     (case region_opt of
        None \<Rightarrow> NotRun
      | Some region \<Rightarrow>
          (case split_checker of
             None \<Rightarrow> NotRun
           | Some checker \<Rightarrow>
               (let encode_range = EncodeRange (r_range region);
                    encode_split_key = fst (checker encode_range cfs 0 0)
                in if encode_split_key \<noteq> [] \<and> DecodeKey encode_split_key = None
                   then DecodeKeyFatal
                   else
                     (let plain_split_key =
                            (if encode_split_key = [] then []
                             else (case DecodeKey encode_split_key of
                                     None \<Rightarrow> [] | Some k \<Rightarrow> k))
                      in case split_checks region env plain_split_key of
                           Some reason \<Rightarrow> NoSplit reason
                         | None \<Rightarrow> SplitRegionRequest plain_split_key))))"

subsection \<open>Concrete regions\<close>

definition c3_cfs :: "kv_entry list list" where
  "c3_cfs = [[(''a'', ''123''), (''b'', ''1234567'')]]"

definition c3_checker :: SizeSplitChecker where
  "c3_checker = \<lparr>split_size = 10, split_ratio = \<lparr>mantissa = 1, exponent = - 1\<rparr>\<rparr>"

definition c3_range :: Range where
  "c3_range = \<lparr>start_key = ''a'', end_key = ''z''\<rparr>"

definition ex_cfs :: "kv_entry list list" where
  "ex_cfs = [[(''a'', ''12''), (''c'', ''89'')], [(''b'', ''34567'')]]"

definition ex_region :: Region where
  "ex_region = \<lparr>r_range = c3_range, r_epoch_version = 1, r_disable_change = False,
     r_temporary_disable_change = False, r_state_normal = True, r_mono_store = False\<rparr>"

definition ex_env :: split_env where
  "ex_env = \<lparr>epoch_version_after = 1, leader_and_follower_ok = True,
     enable_region_split_and_merge_for_lite = False, vector_index_task_running_num = 0,
     vector_index_task_running_num_expect = 6\<rparr>"

section \<open>Raw engine writer (engine/raw_rocks_engine.cc)\<close>

text \<open>The error codes of \<open>pb::error::Errno\<close> that the modelled code returns or tests.\<close>

datatype Errno =
  OK
  | EINTERNAL
  | EKEY_EMPTY
  | EKEY_NOTFOUND
  | EKEY_NOT_FOUND
  | EVECTOR_NOT_SUPPORT
  | EOTHER nat

text \<open>
  One column family of the transaction database is a map from keys to values. The writer
  runs a short transaction: \<open>GetForUpdate\<close> reads and locks the key, \<open>Put\<close> buffers
  a write, \<open>Commit\<close> applies it, \<open>Rollback\<close> drops it. Each of these calls can fail
  for reasons outside the writer (lock timeout, I/O error); \<open>rocks_faults\<close> says which
  ones do in the run at hand.
\<close>

type_synonym rocks_db = "string \<rightharpoonup> string"

record rocks_faults =
  begin_transaction_fails :: bool
  get_for_update_fails :: bool
  put_fails :: bool
  commit_fails :: bool

datatype rocks_status = StatusOk | StatusNotFound | StatusError

definition GetForUpdate :: "rocks_faults \<Rightarrow> rocks_db \<Rightarrow> string \<Rightarrow> rocks_status \<times> string" where
  "GetForUpdate f db k =
     (if get_for_update_fails f then (StatusError, [])
      else case db k of None \<Rightarrow> (StatusNotFound, []) | Some v \<Rightarrow> (StatusOk, v))"

text \<open>
  \<open>RawRocksEngine::Writer::KvCompareAndSetInternal\<close>. \<open>key_state\<close> is an in-out
  parameter; the result is the status, \<open>key_state\<close> and the database after the call.
\<close>

definition compare_and_put ::
  "rocks_faults \<Rightarrow> rocks_db \<Rightarrow> string \<times> string \<Rightarrow> string \<Rightarrow> string \<Rightarrow> Errno \<times> bool \<times> rocks_db" where
  "compare_and_put f db kv val old_value =
     (if snd kv \<noteq> old_value then (EINTERNAL, False, db)
      else if put_fails f then (EINTERNAL, False, db)
      else if commit_fails f then (EINTERNAL, False, db)
      else (OK, True, db(fst kv \<mapsto> val)))"

definition KvCompareAndSetInternal ::
  "rocks_faults \<Rightarrow> rocks_db \<Rightarrow> string \<times> string \<Rightarrow> string \<Rightarrow> bool \<Rightarrow> bool \<Rightarrow> Errno \<times> bool \<times> rocks_db" where
  "KvCompareAndSetInternal f db kv val is_key_exist key_state =
     (if fst kv = [] then (EKEY_EMPTY, key_state, db)
      else if begin_transaction_fails f then (EINTERNAL, False, db)
      else
        (case GetForUpdate f db (fst kv) of
           (StatusOk, old_value) \<Rightarrow>
             if \<not> is_key_exist then (OK, False, db)
             else compare_and_put f db kv val old_value
         | (StatusNotFound, old_value) \<Rightarrow>
             if is_key_exist \<or> (\<not> is_key_exist \<and> snd kv \<noteq> []) then (EKEY_NOTFOUND, False, db)
             else compare_and_put f db kv val old_value
         | (StatusError, old_value) \<Rightarrow> (EINTERNAL, False, db)))"

text \<open>\<open>RawRocksEngine::Writer::KvPutIfAbsent\<close>\<close>

definition KvPutIfAbsent ::
  "rocks_faults \<Rightarrow> rocks_db \<Rightarrow> string \<times> string \<Rightarrow> bool \<Rightarrow> Errno \<times> bool \<times> rocks_db" where
  "KvPutIfAbsent f db kv key_state =
     (let internal_kv = (fst kv, []); val = snd kv
      in KvCompareAndSetInternal f db internal_kv val False key_state)"

definition no_faults :: rocks_faults where
  "no_faults = \<lparr>begin_transaction_fails = False, get_for_update_fails = False,
     put_fails = False, commit_fails = False\<rparr>"

definition ex_db :: rocks_db where
  "ex_db = [''key10'' \<mapsto> ''value10'']"

section \<open>Vector reader (vector/vector_reader.cc)\<close>

subsection \<open>Messages\<close>

text \<open>
  The protobuf messages the reader handles, with the fields the modelled code reads or
  writes. A sub-message that can be unset is an \<open>option\<close>. \<open>float\<close> values are
  modelled as rationals (no NaN, no rounding); a scalar value is kept serialized.
\<close>

record Vector =
  float_values :: "rat list"
  binary_values :: "string list"

type_synonym scalar_map = "(string \<times> string) list"

record VectorWithId =
  vw_id :: int
  vw_vector :: "Vector option"
  vw_scalar_data :: "scalar_map option"
  vw_table_data :: "(string \<times> string) option"

definition empty_VectorWithId :: VectorWithId where
  "empty_VectorWithId = \<lparr>vw_id = 0, vw_vector = None, vw_scalar_data = None, vw_table_data = None\<rparr>"

text \<open>\<open>ByteSizeLong() == 0\<close>: no field of the message is set.\<close>

definition ByteSizeLong_is_0 :: "VectorWithId \<Rightarrow> bool" where
  "ByteSizeLong_is_0 v = (v = empty_VectorWithId)"

definition float_values_size :: "VectorWithId \<Rightarrow> nat" where
  "float_values_size v = (case vw_vector v of None \<Rightarrow> 0 | Some x \<Rightarrow> length (float_values x))"

definition binary_values_size :: "VectorWithId \<Rightarrow> nat" where
  "binary_values_size v = (case vw_vector v of None \<Rightarrow> 0 | Some x \<Rightarrow> length (binary_values x))"

definition scalar_data_size :: "VectorWithId \<Rightarrow> nat" where
  "scalar_data_size v = (case vw_scalar_data v of None \<Rightarrow> 0 | Some m \<Rightarrow> length m)"

definition scalar_data_of :: "VectorWithId \<Rightarrow> scalar_map" where
  "scalar_data_of v = (case vw_scalar_data v of None \<Rightarrow> [] | Some m \<Rightarrow> m)"

record VectorWithDistance =
  vwd_vector_with_id :: VectorWithId
  vwd_distance :: rat

type_synonym VectorWithDistanceResult = "VectorWithDistance list"

datatype VectorFilter = SCALAR_FILTER | TABLE_FILTER | VECTOR_ID_FILTER

datatype VectorFilterType = QUERY_POST | QUERY_PRE

record VectorSearchParameter =
  top_n :: "32 word"
  without_vector_data :: bool
  without_scalar_data :: bool
  without_table_data :: bool
  selected_keys :: "string list"
  enable_range_search :: bool
  radius :: rat
  vector_filter :: VectorFilter
  vector_filter_type :: VectorFilterType
  use_brute_force :: bool
  vector_coprocessor :: "string option"

subsection \<open>What the reader calls\<close>

datatype ColumnFamily = VectorDataCF | VectorScalarCF | VectorTableCF

text \<open>
  The MVCC reader, the codecs, the protobuf parsers and the coprocessor are not part of
  the sources at hand; the reader's code is modelled over them as parameters. \<open>KvGet\<close>
  returns the status and the value; a \<open>ParseFromString\<close> that fails is \<open>None\<close>.
\<close>

record reader_env =
  KvGet :: "ColumnFamily \<Rightarrow> int \<Rightarrow> string \<Rightarrow> Errno \<times> string"
  PackageVectorKey :: "char \<Rightarrow> int \<Rightarrow> int \<Rightarrow> string"
  GetKeyPrefix :: "Range \<Rightarrow> char"
  ParseVector :: "string \<Rightarrow> Vector option"
  ParseScalardata :: "string \<Rightarrow> scalar_map option"
  ParseTableData :: "string \<Rightarrow> (string \<times> string) option"
  IsEqualVectorScalarValue :: "string \<Rightarrow> string \<Rightarrow> bool"
  CoprocessorOpen :: "string \<Rightarrow> Errno"
  CoprocessorFilter :: "string \<Rightarrow> scalar_map \<Rightarrow> Errno \<times> bool"
  EncodeRange :: "Range \<Rightarrow> Range"
  DecodeVectorIdFromEncodeKeyWithTs :: "string \<Rightarrow> int"
  UnPackageValue :: "string \<Rightarrow> string"
  data_cf :: "kv_entry list"

type_synonym FilterFunctor = "int \<Rightarrow> bool"

text \<open>
  The vector index of the region and the transient Flat index of the brute-force path
  (\<open>VectorIndexWrapper\<close>, \<open>VectorIndexFactory::NewFlat\<close>) are not part of the sources at
  hand either. A search returns a status and one result per query. The searches with a
  pre-filter are functions of this file that no property below depends on; they are
  parameters as well.
\<close>

record index_env =
  IndexSearch ::
    "VectorWithId list \<Rightarrow> 32 word \<Rightarrow> FilterFunctor list \<Rightarrow> bool \<Rightarrow> Errno \<times> VectorWithDistanceResult list"
  IndexRangeSearch ::
    "VectorWithId list \<Rightarrow> rat \<Rightarrow> FilterFunctor list \<Rightarrow> bool \<Rightarrow> Errno \<times> VectorWithDistanceResult list"
  FlatAddByParallel :: "VectorWithId list \<Rightarrow> Errno"
  FlatSearchByParallel ::
    "VectorWithId list \<Rightarrow> VectorWithId list \<Rightarrow> 32 word \<Rightarrow> FilterFunctor list \<Rightarrow> bool \<Rightarrow>
     Errno \<times> VectorWithDistanceResult list"
  FlatRangeSearchByParallel ::
    "VectorWithId list \<Rightarrow> VectorWithId list \<Rightarrow> rat \<Rightarrow> FilterFunctor list \<Rightarrow> bool \<Rightarrow>
     Errno \<times> VectorWithDistanceResult list"
  DoVectorSearchForVectorIdPreFilter ::
    "VectorWithId list \<Rightarrow> VectorSearchParameter \<Rightarrow> Errno \<times> VectorWithDistanceResult list"
  DoVectorSearchForScalarPreFilter ::
    "VectorWithId list \<Rightarrow> VectorSearchParameter \<Rightarrow> Errno \<times> VectorWithDistanceResult list"
  DoVectorSearchForTableCoprocessor ::
    "VectorWithId list \<Rightarrow> VectorSearchParameter \<Rightarrow> Errno \<times> VectorWithDistanceResult list"

text \<open>
  A call that ends in a failed \<open>CHECK\<close> (or in undefined behaviour) aborts the process:
  it is the result \<open>None\<close>. A call that returns is \<open>Some\<close> of its status and its output
  parameter.
\<close>

subsection \<open>Point queries\<close>

text \<open>\<open>VectorReader::QueryVectorWithId\<close>\<close>

definition QueryVectorWithId ::
  "reader_env \<Rightarrow> int \<Rightarrow> Range \<Rightarrow> int \<Rightarrow> int \<Rightarrow> bool \<Rightarrow> VectorWithId \<Rightarrow> (Errno \<times> VectorWithId) option" where
  "QueryVectorWithId env ts region_range partition_id vector_id with_vector_data vector_with_id =
     (let plain_key = PackageVectorKey env (GetKeyPrefix env region_range) partition_id vector_id;
          (status, plain_value) = KvGet env VectorDataCF ts plain_key
      in if status \<noteq> OK then Some (status, vector_with_id)
         else if with_vector_data then
           (case ParseVector env plain_value of
              None \<Rightarrow> None
            | Some v \<Rightarrow> Some (OK, vector_with_id\<lparr>vw_vector := Some v, vw_id := vector_id\<rparr>))
         else Some (OK, vector_with_id\<lparr>vw_id := vector_id\<rparr>))"

text \<open>
  \<open>scalar->insert({key, value})\<close> on a protobuf map keeps the value of a key that is
  already there.
\<close>

definition map_insert :: "string \<times> string \<Rightarrow> scalar_map \<Rightarrow> scalar_map" where
  "map_insert kv m = (if fst kv \<in> fst ` set m then m else m @ [kv])"

text \<open>\<open>VectorReader::QueryVectorScalarData\<close> for one \<open>VectorWithId\<close>\<close>

definition QueryVectorScalarData ::
  "reader_env \<Rightarrow> int \<Rightarrow> Range \<Rightarrow> int \<Rightarrow> string list \<Rightarrow> VectorWithId \<Rightarrow> (Errno \<times> VectorWithId) option" where
  "QueryVectorScalarData env ts region_range partition_id selected_scalar_keys vector_with_id =
     (let plain_key =
            PackageVectorKey env (GetKeyPrefix env region_range) partition_id (vw_id vector_with_id);
          (status, plain_value) = KvGet env VectorScalarCF ts plain_key
      in if status \<noteq> OK then Some (status, vector_with_id)
         else
           (case ParseScalardata env plain_value of
              None \<Rightarrow> None
            | Some vector_scalar \<Rightarrow>
                (let wanted = filter (\<lambda>kv. selected_scalar_keys = [] \<or> fst kv \<in> set selected_scalar_keys)
                                vector_scalar
                 in Some (OK, vector_with_id
                      \<lparr>vw_scalar_data := Some (fold map_insert wanted (scalar_data_of vector_with_id))\<rparr>))))"

text \<open>
  \<open>VectorReader::QueryVectorTableData\<close> for one \<open>VectorWithId\<close>; the key prefix is
  \<open>region_range.start_key()[0]\<close>, the terminating zero for an empty start key.
\<close>

definition first_char :: "string \<Rightarrow> char" where
  "first_char s = (case s of [] \<Rightarrow> CHR 0x00 | c # _ \<Rightarrow> c)"

definition QueryVectorTableData ::
  "reader_env \<Rightarrow> int \<Rightarrow> Range \<Rightarrow> int \<Rightarrow> VectorWithId \<Rightarrow> (Errno \<times> VectorWithId) option" where
  "QueryVectorTableData env ts region_range partition_id vector_with_id =
     (let plain_key =
            PackageVectorKey env (first_char (start_key region_range)) partition_id (vw_id vector_with_id);
          (status, plain_value) = KvGet env VectorTableCF ts plain_key
      in if status \<noteq> OK then Some (status, vector_with_id)
         else
           (case ParseTableData env plain_value of
              None \<Rightarrow> None
            | Some vector_table \<Rightarrow> Some (OK, vector_with_id\<lparr>vw_table_data := Some vector_table\<rparr>)))"

subsection \<open>\<open>VectorBatchQuery\<close>\<close>

record Context =
  ctx_partition_id :: int
  ctx_region_range :: Range
  ctx_ts :: int
  ctx_vector_with_ids :: "VectorWithId list"
  ctx_vector_ids :: "int list"
  ctx_parameter :: VectorSearchParameter
  ctx_selected_scalar_keys :: "string list"
  ctx_with_vector_data :: bool
  ctx_with_scalar_data :: bool
  ctx_with_table_data :: bool

text \<open>
  The first loop: one \<open>push_back\<close> per requested id, whatever the status of the query
  (a status other than \<open>OK\<close> and \<open>EKEY_NOT_FOUND\<close> is only logged).
\<close>

fun query_ids :: "reader_env \<Rightarrow> Context \<Rightarrow> int list \<Rightarrow> VectorWithId list \<Rightarrow> VectorWithId list option" where
  "query_ids env ctx [] out = Some out"
| "query_ids env ctx (vector_id # rest) out =
     (case QueryVectorWithId env (ctx_ts ctx) (ctx_region_range ctx) (ctx_partition_id ctx) vector_id
             (ctx_with_vector_data ctx) empty_VectorWithId of
        None \<Rightarrow> None
      | Some (status, vector_with_id) \<Rightarrow> query_ids env ctx rest (out @ [vector_with_id]))"

text \<open>
  The loops that attach scalar and table data in place; an empty message is skipped, a
  failed query is only logged.
\<close>

fun attach_each ::
  "(VectorWithId \<Rightarrow> (Errno \<times> VectorWithId) option) \<Rightarrow> VectorWithId list \<Rightarrow> VectorWithId list option" where
  "attach_each q [] = Some []"
| "attach_each q (v # vs) =
     (if ByteSizeLong_is_0 v then map_option ((#) v) (attach_each q vs)
      else (case q v of
              None \<Rightarrow> None
            | Some (status, v') \<Rightarrow> map_option ((#) v') (attach_each q vs)))"

definition VectorBatchQuery ::
  "reader_env \<Rightarrow> Context \<Rightarrow> VectorWithId list \<Rightarrow> (Errno \<times> VectorWithId list) option" where
  "VectorBatchQuery env ctx out =
     (case query_ids env ctx (ctx_vector_ids ctx) out of
        None \<Rightarrow> None
      | Some out1 \<Rightarrow>
          (case (if ctx_with_scalar_data ctx
                 then attach_each (QueryVectorScalarData env (ctx_ts ctx) (ctx_region_range ctx)
                        (ctx_partition_id ctx) (ctx_selected_scalar_keys ctx)) out1
                 else Some out1) of
             None \<Rightarrow> None
           | Some out2 \<Rightarrow>
               (case (if ctx_with_table_data ctx
                      then attach_each (QueryVectorTableData env (ctx_ts ctx) (ctx_region_range ctx)
                             (ctx_partition_id ctx)) out2
                      else Some out2) of
                  None \<Rightarrow> None
                | Some out3 \<Rightarrow> Some (OK, out3))))"

text \<open>
  The status of the data column family for a requested id, and the well-formedness of
  the stored values: every value a \<open>KvGet\<close> returns with status \<open>OK\<close> parses as the
  message of its column family (a value that does not is a corruption, on which the
  reader aborts with a failed \<open>CHECK\<close>).
\<close>

definition data_status :: "reader_env \<Rightarrow> Context \<Rightarrow> int \<Rightarrow> Errno" where
  "data_status env ctx vector_id =
     fst (KvGet env VectorDataCF (ctx_ts ctx)
            (PackageVectorKey env (GetKeyPrefix env (ctx_region_range ctx)) (ctx_partition_id ctx)
               vector_id))"

definition stored_values_parse :: "reader_env \<Rightarrow> bool" where
  "stored_values_parse env =
     (\<forall>t k v.
        (KvGet env VectorDataCF t k = (OK, v) \<longrightarrow> ParseVector env v \<noteq> None) \<and>
        (KvGet env VectorScalarCF t k = (OK, v) \<longrightarrow> ParseScalardata env v \<noteq> None) \<and>
        (KvGet env VectorTableCF t k = (OK, v) \<longrightarrow> ParseTableData env v \<noteq> None))"

text \<open>A store with one vector, id 1, and a request for the ids 1 and 2.\<close>

definition q_env :: reader_env where
  "q_env = \<lparr>
     KvGet = (\<lambda>cf t k. if cf = VectorDataCF \<and> k = ''k1'' then (OK, ''v1'') else (EKEY_NOT_FOUND, [])),
     PackageVectorKey = (\<lambda>c p i. if i = 1 then ''k1'' else ''k''),
     GetKeyPrefix = (\<lambda>r. CHR ''r''),
     ParseVector = (\<lambda>s. Some \<lparr>float_values = [1, 0], binary_values = []\<rparr>),
     ParseScalardata = (\<lambda>s. Some []),
     ParseTableData = (\<lambda>s. Some ([], [])),
     IsEqualVectorScalarValue = (\<lambda>a b. a = b),
     CoprocessorOpen = (\<lambda>s. OK),
     CoprocessorFilter = (\<lambda>s m. (OK, True)),
     EncodeRange = (\<lambda>r. r),
     DecodeVectorIdFromEncodeKeyWithTs = (\<lambda>k. 1),
     UnPackageValue = (\<lambda>v. v),
     data_cf = [(''k1'', ''v1'')]\<rparr>"

definition q_parameter :: VectorSearchParameter where
  "q_parameter = \<lparr>top_n = 2, without_vector_data = False, without_scalar_data = True,
     without_table_data = True, selected_keys = [], enable_range_search = False, radius = 0,
     vector_filter = SCALAR_FILTER, vector_filter_type = QUERY_POST, use_brute_force = False,
     vector_coprocessor = None\<rparr>"

definition q_ctx :: Context where
  "q_ctx = \<lparr>ctx_partition_id = 0, ctx_region_range = c3_range, ctx_ts = 0,
     ctx_vector_with_ids = [], ctx_vector_ids = [1, 2], ctx_parameter = q_parameter,
     ctx_selected_scalar_keys = [], ctx_with_vector_data = True, ctx_with_scalar_data = True,
     ctx_with_table_data = False\<rparr>"

subsection \<open>Brute-force search\<close>

record reader_flags =
  vector_index_max_range_search_result_count :: int
  vector_index_bruteforce_batch_count :: int

text \<open>
  The flags are \<open>int64\<close>; the code compares them with a \<open>size_t\<close>, which converts them
  to unsigned 64-bit values.
\<close>

definition size_t_of :: "int \<Rightarrow> nat" where
  "size_t_of x = nat (x mod 2 ^ 64)"

text \<open>
  \<open>DistanceResult\<close> and its \<open>operator<\<close>: by distance, then by id. A
  \<open>std::priority_queue<DistanceResult>\<close> is kept as the list of its elements in ascending
  order; \<open>top()\<close> is the greatest element, the last of the list.
\<close>

definition dr_key :: "VectorWithDistance \<Rightarrow> rat \<times> int" where
  "dr_key x = (vwd_distance x, vw_id (vwd_vector_with_id x))"

type_synonym top_result = "VectorWithDistance list"

definition pq_emplace :: "VectorWithDistance \<Rightarrow> top_result \<Rightarrow> top_result" where
  "pq_emplace x q = insort_key dr_key x q"

text \<open>
  The body of the merge loop for one candidate. \<open>top()\<close> on an empty queue (possible
  only for \<open>topk = 0\<close>) is undefined behaviour, the result \<open>None\<close>.
\<close>

definition topk_offer :: "nat \<Rightarrow> top_result \<Rightarrow> VectorWithDistance \<Rightarrow> top_result option" where
  "topk_offer topk q x =
     (if length q < topk then Some (pq_emplace x q)
      else if q = [] then None
      else if vwd_distance (last q) > vwd_distance x then Some (pq_emplace x (butlast q))
      else Some q)"

fun topk_merge :: "nat \<Rightarrow> top_result \<Rightarrow> VectorWithDistance list \<Rightarrow> top_result option" where
  "topk_merge topk q [] = Some q"
| "topk_merge topk q (x # xs) =
     (case topk_offer topk q x of None \<Rightarrow> None | Some q' \<Rightarrow> topk_merge topk q' xs)"

text \<open>
  \<open>for (int i = 0; i < results_batch.size(); i++)\<close>, after the \<open>CHECK\<close> that there is one
  batch result per query.
\<close>

fun merge_each ::
  "('r \<Rightarrow> VectorWithDistance list \<Rightarrow> 'r option) \<Rightarrow> 'r list \<Rightarrow> VectorWithDistanceResult list \<Rightarrow>
   'r list option" where
  "merge_each f (q # qs) (r # rs) =
     (case f q r of
        None \<Rightarrow> None
      | Some q' \<Rightarrow> (case merge_each f qs rs of None \<Rightarrow> None | Some qs' \<Rightarrow> Some (q' # qs')))"
| "merge_each f qs [] = Some qs"
| "merge_each f [] rs = Some []"

text \<open>
  One batch: a new Flat index, \<open>AddByParallel\<close>, \<open>SearchByParallel\<close>, the \<open>CHECK\<close>, the
  merge into the queues.
\<close>

definition search_batch ::
  "index_env \<Rightarrow> VectorWithId list \<Rightarrow> 32 word \<Rightarrow> FilterFunctor list \<Rightarrow> bool \<Rightarrow>
   VectorWithId list \<Rightarrow> top_result list \<Rightarrow> (Errno + top_result list) option" where
  "search_batch idx queries topk filters reconstruct batch top_results =
     (let ret = FlatAddByParallel idx batch
      in if ret \<noteq> OK then Some (Inl ret)
         else
           (let (ret, results_batch) = FlatSearchByParallel idx batch queries topk filters reconstruct
            in if ret \<noteq> OK then Some (Inl ret)
               else if length results_batch \<noteq> length queries then None
               else (case merge_each (topk_merge (unat topk)) top_results results_batch of
                       None \<Rightarrow> None
                     | Some tops \<Rightarrow> Some (Inr tops))))"

text \<open>
  The scan of the data column family: each entry is decoded (two \<open>CHECK\<close>s) and added to
  the batch; a batch of \<open>FLAGS_vector_index_bruteforce_batch_count\<close> entries is flushed;
  what is left at the end is flushed as the last batch.
\<close>

fun scan_batches ::
  "reader_env \<Rightarrow> nat \<Rightarrow> (VectorWithId list \<Rightarrow> 's \<Rightarrow> (Errno + 's) option) \<Rightarrow> kv_entry list \<Rightarrow>
   VectorWithId list \<Rightarrow> 's \<Rightarrow> (Errno + 's) option" where
  "scan_batches env batch_count flush [] batch s =
     (if batch \<noteq> [] then flush batch s else Some (Inr s))"
| "scan_batches env batch_count flush (kv # rest) batch s =
     (let vector_id = DecodeVectorIdFromEncodeKeyWithTs env (fst kv)
      in if \<not> 0 < vector_id then None
         else
           (case ParseVector env (UnPackageValue env (snd kv)) of
              None \<Rightarrow> None
            | Some v \<Rightarrow>
                (let batch' = batch @ [\<lparr>vw_id = vector_id, vw_vector = Some v,
                                         vw_scalar_data = None, vw_table_data = None\<rparr>]
                 in if length batch' = batch_count then
                      (case flush batch' s of
                         None \<Rightarrow> None
                       | Some (Inl e) \<Rightarrow> Some (Inl e)
                       | Some (Inr s') \<Rightarrow> scan_batches env batch_count flush rest [] s')
                    else scan_batches env batch_count flush rest batch' s)))"

text \<open>\<open>results.resize(n)\<close> and the copy of the collected entries into \<open>results[i]\<close>.\<close>

definition resize :: "nat \<Rightarrow> VectorWithDistanceResult list \<Rightarrow> VectorWithDistanceResult list" where
  "resize n results = take n results @ replicate (n - length results) []"

definition copy_out ::
  "VectorWithDistanceResult list \<Rightarrow> VectorWithDistance list list \<Rightarrow> VectorWithDistanceResult list" where
  "copy_out results tops = map (\<lambda>(r, q). r @ q) (zip (resize (length tops) results) tops)"

definition data_iter :: "reader_env \<Rightarrow> Range \<Rightarrow> kv_entry list" where
  "data_iter env region_range =
     (let encode_range = EncodeRange env region_range
      in IterSeek (NewIterator (data_cf env) (end_key encode_range)) (start_key encode_range))"

text \<open>
  \<open>VectorReader::BruteForceSearch\<close>. Emptying a queue from the top into the front of a
  deque leaves the deque in ascending order, the order of the list that models the queue.
\<close>

definition BruteForceSearch ::
  "reader_env \<Rightarrow> index_env \<Rightarrow> reader_flags \<Rightarrow> VectorWithId list \<Rightarrow> 32 word \<Rightarrow> Range \<Rightarrow>
   FilterFunctor list \<Rightarrow> bool \<Rightarrow> VectorWithDistanceResult list \<Rightarrow>
   (Errno \<times> VectorWithDistanceResult list) option" where
  "BruteForceSearch env idx flags queries topk region_range filters reconstruct results =
     (let iter = data_iter env region_range
      in if iter = [] then Some (OK, results)
         else
           (case scan_batches env (size_t_of (vector_index_bruteforce_batch_count flags))
                   (search_batch idx queries topk filters reconstruct) iter []
                   (replicate (length queries) []) of
              None \<Rightarrow> None
            | Some (Inl e) \<Rightarrow> Some (e, results)
            | Some (Inr top_results) \<Rightarrow> Some (OK, copy_out results top_results)))"

subsection \<open>Brute-force range search\<close>

text \<open>
  The merge loop of one query and one batch: entries are appended while the list is
  shorter than \<open>FLAGS_vector_index_max_range_search_result_count\<close>; the first entry that
  does not fit logs a warning (the limit and the count it would have reached) and leaves
  the loop.
\<close>

type_synonym warning = "nat \<times> nat"

type_synonym range_result = "VectorWithDistance list \<times> warning list"

fun range_merge :: "nat \<Rightarrow> range_result \<Rightarrow> VectorWithDistance list \<Rightarrow> range_result option" where
  "range_merge limit (r, w) [] = Some (r, w)"
| "range_merge limit (r, w) (x # xs) =
     (if length r < limit then range_merge limit (r @ [x], w) xs
      else Some (r, w @ [(limit, length r + 1)]))"

definition range_search_batch ::
  "index_env \<Rightarrow> reader_flags \<Rightarrow> VectorWithId list \<Rightarrow> rat \<Rightarrow> FilterFunctor list \<Rightarrow> bool \<Rightarrow>
   VectorWithId list \<Rightarrow> range_result list \<Rightarrow> (Errno + range_result list) option" where
  "range_search_batch idx flags queries rad filters reconstruct batch range_results =
     (let ret = FlatAddByParallel idx batch
      in if ret \<noteq> OK then Some (Inl ret)
         else
           (let (ret, results_batch) =
                  FlatRangeSearchByParallel idx batch queries rad filters reconstruct
            in if ret \<noteq> OK then Some (Inl ret)
               else if length results_batch \<noteq> length queries then None
               else (case merge_each
                            (range_merge (size_t_of (vector_index_max_range_search_result_count flags)))
                            range_results results_batch of
                       None \<Rightarrow> None
                     | Some rs \<Rightarrow> Some (Inr rs))))"

text \<open>
  \<open>VectorReader::BruteForceRangeSearch\<close>; the third component of the result is the
  warnings it logged, per query.
\<close>

definition BruteForceRangeSearch ::
  "reader_env \<Rightarrow> index_env \<Rightarrow> reader_flags \<Rightarrow> VectorWithId list \<Rightarrow> rat \<Rightarrow> Range \<Rightarrow>
   FilterFunctor list \<Rightarrow> bool \<Rightarrow> VectorWithDistanceResult list \<Rightarrow>
   (Errno \<times> VectorWithDistanceResult list \<times> warning list list) option" where
  "BruteForceRangeSearch env idx flags queries rad region_range filters reconstruct results =
     (let iter = data_iter env region_range
      in if iter = [] then Some (OK, results, [])
         else
           (case scan_batches env (size_t_of (vector_index_bruteforce_batch_count flags))
                   (range_search_batch idx flags queries rad filters reconstruct) iter []
                   (replicate (length queries) ([], [])) of
              None \<Rightarrow> None
            | Some (Inl e) \<Rightarrow> Some (e, results, [])
            | Some (Inr range_results) \<Rightarrow>
                Some (OK, copy_out results (map fst range_results), map snd range_results)))"

subsection \<open>\<open>SearchAndRangeSearchWrapper\<close>\<close>

definition SearchAndRangeSearchWrapper ::
  "reader_env \<Rightarrow> index_env \<Rightarrow> reader_flags \<Rightarrow> Range \<Rightarrow> VectorWithId list \<Rightarrow> VectorSearchParameter \<Rightarrow>
   VectorWithDistanceResult list \<Rightarrow> 32 word \<Rightarrow> FilterFunctor list \<Rightarrow>
   (Errno \<times> VectorWithDistanceResult list \<times> warning list list) option" where
  "SearchAndRangeSearchWrapper env idx flags region_range queries param results topk filters =
     (let with_vector_data = \<not> without_vector_data param;
          rad = radius param
      in if use_brute_force param then
           (if enable_range_search param
            then BruteForceRangeSearch env idx flags queries rad region_range filters
                   with_vector_data results
            else (case BruteForceSearch env idx flags queries topk region_range filters
                         with_vector_data results of
                    None \<Rightarrow> None
                  | Some (status, res) \<Rightarrow> Some (status, res, [])))
         else if enable_range_search param then
           (let (status, found) = IndexRangeSearch idx queries rad filters with_vector_data
            in if status = EVECTOR_NOT_SUPPORT
               then BruteForceRangeSearch env idx flags queries rad region_range filters
                      with_vector_data (results @ found)
               else Some (status, results @ found, []))
         else
           (let (status, found) = IndexSearch idx queries topk filters with_vector_data
            in if status = EVECTOR_NOT_SUPPORT
               then (case BruteForceSearch env idx flags queries topk region_range filters
                            with_vector_data (results @ found) of
                       None \<Rightarrow> None
                     | Some (st, res) \<Rightarrow> Some (st, res, []))
               else Some (status, results @ found, [])))"

subsection \<open>Scalar post-filter\<close>

text \<open>
  \<open>VectorReader::CompareVectorScalarData\<close>: every key of the request's map must be in
  the stored record with an equal value.
\<close>

fun scalar_map_matches :: "reader_env \<Rightarrow> scalar_map \<Rightarrow> scalar_map \<Rightarrow> bool" where
  "scalar_map_matches env [] vector_scalar = True"
| "scalar_map_matches env ((k, v) # rest) vector_scalar =
     (case map_of vector_scalar k of
        None \<Rightarrow> False
      | Some stored \<Rightarrow>
          if IsEqualVectorScalarValue env v stored then scalar_map_matches env rest vector_scalar
          else False)"

definition CompareVectorScalarData ::
  "reader_env \<Rightarrow> int \<Rightarrow> Range \<Rightarrow> int \<Rightarrow> int \<Rightarrow> scalar_map \<Rightarrow> (Errno \<times> bool) option" where
  "CompareVectorScalarData env ts region_range partition_id vector_id source_scalar_data =
     (let plain_key = PackageVectorKey env (GetKeyPrefix env region_range) partition_id vector_id;
          (status, plain_value) = KvGet env VectorScalarCF ts plain_key
      in if status \<noteq> OK then Some (status, False)
         else
           (case ParseScalardata env plain_value of
              None \<Rightarrow> None
            | Some vector_scalar \<Rightarrow>
                Some (OK, scalar_map_matches env source_scalar_data vector_scalar)))"

text \<open>
  \<open>VectorReader::CompareVectorScalarDataWithCoprocessor\<close>: a coprocessor filter that
  fails counts as "does not pass".
\<close>

definition CompareVectorScalarDataWithCoprocessor ::
  "reader_env \<Rightarrow> int \<Rightarrow> Range \<Rightarrow> int \<Rightarrow> int \<Rightarrow> string \<Rightarrow> (Errno \<times> bool) option" where
  "CompareVectorScalarDataWithCoprocessor env ts region_range partition_id vector_id scalar_coprocessor =
     (let plain_key = PackageVectorKey env (GetKeyPrefix env region_range) partition_id vector_id;
          (status, plain_value) = KvGet env VectorScalarCF ts plain_key
      in if status \<noteq> OK then Some (status, False)
         else
           (case ParseScalardata env plain_value of
              None \<Rightarrow> None
            | Some vector_scalar \<Rightarrow>
                (let (st, is_reverse) = CoprocessorFilter env scalar_coprocessor vector_scalar
                 in Some (OK, if st \<noteq> OK then False else is_reverse))))"

text \<open>
  The inner loop of the post-filter over the candidates of one query: a candidate that
  passes is kept; without range search the loop is left as soon as the number kept is at
  least \<open>parameter.top_n()\<close>. A failed load of a scalar record returns its status.
\<close>

fun post_filter ::
  "(int \<Rightarrow> (Errno \<times> bool) option) \<Rightarrow> bool \<Rightarrow> nat \<Rightarrow> VectorWithDistance list \<Rightarrow>
   VectorWithDistance list \<Rightarrow> (Errno + VectorWithDistance list) option" where
  "post_filter compare range_search n [] kept = Some (Inr kept)"
| "post_filter compare range_search n (c # cs) kept =
     (case compare (vw_id (vwd_vector_with_id c)) of
        None \<Rightarrow> None
      | Some (status, compare_result) \<Rightarrow>
          if status \<noteq> OK then Some (Inl status)
          else if \<not> compare_result then post_filter compare range_search n cs kept
          else if \<not> range_search \<and> length (kept @ [c]) \<ge> n then Some (Inr (kept @ [c]))
          else post_filter compare range_search n cs (kept @ [c]))"

text \<open>
  The outer loop over the queries; the filtered result of a query is appended to the
  output. On an error the output keeps what was appended before.
\<close>

fun post_filter_all ::
  "(int \<Rightarrow> (Errno \<times> bool) option) \<Rightarrow> bool \<Rightarrow> nat \<Rightarrow> VectorWithDistanceResult list \<Rightarrow>
   VectorWithDistanceResult list \<Rightarrow> (Errno \<times> VectorWithDistanceResult list) option" where
  "post_filter_all compare range_search n [] results = Some (OK, results)"
| "post_filter_all compare range_search n (r # rs) results =
     (case post_filter compare range_search n r [] of
        None \<Rightarrow> None
      | Some (Inl status) \<Rightarrow> Some (status, results)
      | Some (Inr kept) \<Rightarrow> post_filter_all compare range_search n rs (results @ [kept]))"

subsection \<open>\<open>SearchVector\<close>\<close>

text \<open>
  The last step of \<open>SearchVector\<close>: a result without vector values gets them from the
  data column family; an id that is not found there is skipped.
\<close>

fun fill_vectors ::
  "reader_env \<Rightarrow> int \<Rightarrow> Range \<Rightarrow> int \<Rightarrow> VectorWithDistance list \<Rightarrow>
   (Errno \<times> VectorWithDistance list) option" where
  "fill_vectors env ts region_range partition_id [] = Some (OK, [])"
| "fill_vectors env ts region_range partition_id (x # xs) =
     (let continue = (\<lambda>y. case fill_vectors env ts region_range partition_id xs of
                            None \<Rightarrow> None
                          | Some (st, ys) \<Rightarrow> Some (st, y # ys))
      in if float_values_size (vwd_vector_with_id x) > 0 \<or> binary_values_size (vwd_vector_with_id x) > 0
         then continue x
         else
           (case QueryVectorWithId env ts region_range partition_id (vw_id (vwd_vector_with_id x))
                   True empty_VectorWithId of
              None \<Rightarrow> None
            | Some (status, v) \<Rightarrow>
                if status \<noteq> OK then
                  (if status = EKEY_NOT_FOUND then continue x else Some (status, x # xs))
                else continue (x\<lparr>vwd_vector_with_id := v\<rparr>)))"

fun fill_vectors_all ::
  "reader_env \<Rightarrow> int \<Rightarrow> Range \<Rightarrow> int \<Rightarrow> VectorWithDistanceResult list \<Rightarrow>
   (Errno \<times> VectorWithDistanceResult list) option" where
  "fill_vectors_all env ts region_range partition_id [] = Some (OK, [])"
| "fill_vectors_all env ts region_range partition_id (r # rs) =
     (case fill_vectors env ts region_range partition_id r of
        None \<Rightarrow> None
      | Some (status, r') \<Rightarrow>
          if status \<noteq> OK then Some (status, r' # rs)
          else (case fill_vectors_all env ts region_range partition_id rs of
                  None \<Rightarrow> None
                | Some (st, rs') \<Rightarrow> Some (st, r' # rs')))"

text \<open>
  The search proper, by filter. With \<open>SCALAR_FILTER\<close> and \<open>QUERY_POST\<close> there are three
  cases: no scalar data in the first query and no coprocessor (a plain search for
  \<open>top_n\<close>), a coprocessor, and a scalar map without coprocessor; the last two search for
  \<open>top_n *= 10\<close> (a \<open>uint32_t\<close>) into \<open>tmp_results\<close> and filter. The warnings of the
  wrapper are dropped here.
\<close>

definition drop_warnings ::
  "(Errno \<times> VectorWithDistanceResult list \<times> warning list list) option \<Rightarrow>
   (Errno \<times> VectorWithDistanceResult list) option" where
  "drop_warnings r = map_option (\<lambda>(status, res, w). (status, res)) r"

definition search_by_filter ::
  "reader_env \<Rightarrow> index_env \<Rightarrow> reader_flags \<Rightarrow> int \<Rightarrow> int \<Rightarrow> Range \<Rightarrow> VectorWithId list \<Rightarrow>
   VectorSearchParameter \<Rightarrow> VectorWithDistanceResult list \<Rightarrow>
   (Errno \<times> VectorWithDistanceResult list) option" where
  "search_by_filter env idx flags ts partition_id region_range queries param results =
     (if vector_filter param = SCALAR_FILTER \<and> vector_filter_type param = QUERY_POST then
        (if scalar_data_size (hd queries) = 0 \<and> vector_coprocessor param = None then
           drop_warnings
             (SearchAndRangeSearchWrapper env idx flags region_range queries param results
                (top_n param) [])
         else
           (case drop_warnings
                   (SearchAndRangeSearchWrapper env idx flags region_range queries param []
                      (top_n param * 10) []) of
              None \<Rightarrow> None
            | Some (status, tmp_results) \<Rightarrow>
                if status \<noteq> OK then Some (status, results)
                else
                  (case vector_coprocessor param of
                     Some coprocessor \<Rightarrow>
                       (let status = CoprocessorOpen env coprocessor
                        in if status \<noteq> OK then Some (status, results)
                           else post_filter_all
                                  (\<lambda>temp_id. CompareVectorScalarDataWithCoprocessor env ts region_range
                                      partition_id temp_id coprocessor)
                                  (enable_range_search param) (unat (top_n param)) tmp_results results)
                   | None \<Rightarrow>
                       post_filter_all
                         (\<lambda>temp_id. CompareVectorScalarData env ts region_range partition_id temp_id
                             (scalar_data_of (hd queries)))
                         (enable_range_search param) (unat (top_n param)) tmp_results results)))
      else if vector_filter param = VECTOR_ID_FILTER then
        (let (status, found) = DoVectorSearchForVectorIdPreFilter idx queries param
         in Some (status, results @ found))
      else if vector_filter param = SCALAR_FILTER \<and> vector_filter_type param = QUERY_PRE then
        (let (status, found) = DoVectorSearchForScalarPreFilter idx queries param
         in Some (status, results @ found))
      else if vector_filter param = TABLE_FILTER then
        (let (status, found) = DoVectorSearchForTableCoprocessor idx queries param
         in Some (status, results @ found))
      else Some (OK, results))"

text \<open>\<open>VectorReader::SearchVector\<close>\<close>

definition SearchVector ::
  "reader_env \<Rightarrow> index_env \<Rightarrow> reader_flags \<Rightarrow> int \<Rightarrow> int \<Rightarrow> Range \<Rightarrow> VectorWithId list \<Rightarrow>
   VectorSearchParameter \<Rightarrow> VectorWithDistanceResult list \<Rightarrow>
   (Errno \<times> VectorWithDistanceResult list) option" where
  "SearchVector env idx flags ts partition_id region_range queries param results =
     (if queries = [] then Some (OK, results)
      else
        (case search_by_filter env idx flags ts partition_id region_range queries param results of
           None \<Rightarrow> None
         | Some (status, found) \<Rightarrow>
             if status \<noteq> OK then Some (status, found)
             else if \<not> without_vector_data param
               then fill_vectors_all env ts region_range partition_id found
             else Some (OK, found)))"

text \<open>
  \<open>VectorReader::VectorBatchSearch\<close>: the overloads of \<open>QueryVectorScalarData\<close> and
  \<open>QueryVectorTableData\<close> over the results ignore the status of each query and return
  \<open>OK\<close>.
\<close>

fun attach_all ::
  "(VectorWithId \<Rightarrow> (Errno \<times> VectorWithId) option) \<Rightarrow> VectorWithDistance list \<Rightarrow>
   VectorWithDistance list option" where
  "attach_all q [] = Some []"
| "attach_all q (x # xs) =
     (case q (vwd_vector_with_id x) of
        None \<Rightarrow> None
      | Some (status, v) \<Rightarrow>
          (case attach_all q xs of
             None \<Rightarrow> None
           | Some ys \<Rightarrow> Some (x\<lparr>vwd_vector_with_id := v\<rparr> # ys)))"

fun attach_results ::
  "(VectorWithId \<Rightarrow> (Errno \<times> VectorWithId) option) \<Rightarrow> VectorWithDistanceResult list \<Rightarrow>
   VectorWithDistanceResult list option" where
  "attach_results q [] = Some []"
| "attach_results q (r # rs) =
     (case attach_all q r of
        None \<Rightarrow> None
      | Some r' \<Rightarrow> (case attach_results q rs of None \<Rightarrow> None | Some rs' \<Rightarrow> Some (r' # rs')))"

definition VectorBatchSearch ::
  "reader_env \<Rightarrow> index_env \<Rightarrow> reader_flags \<Rightarrow> Context \<Rightarrow> VectorWithDistanceResult list \<Rightarrow>
   (Errno \<times> VectorWithDistanceResult list) option" where
  "VectorBatchSearch env idx flags ctx results =
     (case SearchVector env idx flags (ctx_ts ctx) (ctx_partition_id ctx) (ctx_region_range ctx)
             (ctx_vector_with_ids ctx) (ctx_parameter ctx) results of
        None \<Rightarrow> None
      | Some (status, res) \<Rightarrow>
          if status \<noteq> OK then Some (status, res)
          else
            (case (if \<not> without_scalar_data (ctx_parameter ctx)
                   then attach_results
                          (QueryVectorScalarData env (ctx_ts ctx) (ctx_region_range ctx)
                             (ctx_partition_id ctx) (selected_keys (ctx_parameter ctx))) res
                   else Some res) of
               None \<Rightarrow> None
             | Some res1 \<Rightarrow>
                 (case (if \<not> without_table_data (ctx_parameter ctx)
                        then attach_results
                               (QueryVectorTableData env (ctx_ts ctx) (ctx_region_range ctx)
                                  (ctx_partition_id ctx)) res1
                        else Some res1) of
                    None \<Rightarrow> None
                  | Some res2 \<Rightarrow> Some (OK, res2))))"

subsection \<open>The post-filter pipeline in the spec's words\<close>

text \<open>
  The comparison the post-filter applies to a candidate id: the coprocessor expression
  if the request has one, else the equality map of the first query.
\<close>

definition post_compare ::
  "reader_env \<Rightarrow> int \<Rightarrow> int \<Rightarrow> Range \<Rightarrow> VectorWithId list \<Rightarrow> VectorSearchParameter \<Rightarrow> int \<Rightarrow>
   (Errno \<times> bool) option" where
  "post_compare env ts partition_id region_range queries param temp_id =
     (case vector_coprocessor param of
        Some coprocessor \<Rightarrow>
          CompareVectorScalarDataWithCoprocessor env ts region_range partition_id temp_id coprocessor
      | None \<Rightarrow>
          CompareVectorScalarData env ts region_range partition_id temp_id
            (scalar_data_of (hd queries)))"

definition passes ::
  "reader_env \<Rightarrow> int \<Rightarrow> int \<Rightarrow> Range \<Rightarrow> VectorWithId list \<Rightarrow> VectorSearchParameter \<Rightarrow>
   VectorWithDistance \<Rightarrow> bool" where
  "passes env ts partition_id region_range queries param c =
     (case post_compare env ts partition_id region_range queries param (vw_id (vwd_vector_with_id c)) of
        Some (status, True) \<Rightarrow> status = OK
      | _ \<Rightarrow> False)"

text \<open>
  "\<open>Index.search(queries, top_n \<times> 10, {})\<close>; for each candidate, load its scalar record
  from the scalar CF at \<open>ts\<close>, evaluate expression or equality map; keep first \<open>top_n\<close>
  survivors (unless range-search, in which case keep all passing within radius)", for
  every request with \<open>SCALAR_FILTER\<close> and \<open>QUERY_POST\<close>.
\<close>

definition scalar_post_spec ::
  "reader_env \<Rightarrow> index_env \<Rightarrow> reader_flags \<Rightarrow> int \<Rightarrow> int \<Rightarrow> Range \<Rightarrow> VectorWithId list \<Rightarrow>
   VectorSearchParameter \<Rightarrow> (Errno \<times> VectorWithDistanceResult list) option" where
  "scalar_post_spec env idx flags ts partition_id region_range queries param =
     (case drop_warnings
             (SearchAndRangeSearchWrapper env idx flags region_range queries param []
                (top_n param * 10) []) of
        None \<Rightarrow> None
      | Some (status, candidates) \<Rightarrow>
          if status \<noteq> OK then Some (status, [])
          else post_filter_all (post_compare env ts partition_id region_range queries param)
                 (enable_range_search param) (unat (top_n param)) candidates [])"

text \<open>
  An index that answers every query with one candidate whose id is the \<open>topk\<close> it was
  asked for, over a store that has no scalar record at all.
\<close>

definition echo_candidate :: "32 word \<Rightarrow> VectorWithDistance" where
  "echo_candidate topk =
     \<lparr>vwd_vector_with_id = empty_VectorWithId\<lparr>vw_id := uint topk\<rparr>, vwd_distance = 0\<rparr>"

definition echo_idx :: index_env where
  "echo_idx = \<lparr>
     IndexSearch = (\<lambda>qs topk fs r. (OK, map (\<lambda>q. [echo_candidate topk]) qs)),
     IndexRangeSearch = (\<lambda>qs rad fs r. (OK, map (\<lambda>q. []) qs)),
     FlatAddByParallel = (\<lambda>b. OK),
     FlatSearchByParallel = (\<lambda>b qs topk fs r. (OK, map (\<lambda>q. []) qs)),
     FlatRangeSearchByParallel = (\<lambda>b qs rad fs r. (OK, map (\<lambda>q. []) qs)),
     DoVectorSearchForVectorIdPreFilter = (\<lambda>qs p. (OK, [])),
     DoVectorSearchForScalarPreFilter = (\<lambda>qs p. (OK, [])),
     DoVectorSearchForTableCoprocessor = (\<lambda>qs p. (OK, []))\<rparr>"

definition default_flags :: reader_flags where
  "default_flags = \<lparr>vector_index_max_range_search_result_count = 1024,
     vector_index_bruteforce_batch_count = 2048\<rparr>"

definition a_query :: VectorWithId where
  "a_query = \<lparr>vw_id = 0, vw_vector = Some \<lparr>float_values = [1, 0], binary_values = []\<rparr>,
     vw_scalar_data = None, vw_table_data = None\<rparr>"

definition c6_parameter :: VectorSearchParameter where
  "c6_parameter = q_parameter\<lparr>without_vector_data := True\<rparr>"

text \<open>
  What is kept of the candidates of one query: all that pass with range search, else
  the first \<open>n\<close> that pass. The candidates that are examined for it: all of them with
  range search, else those up to the \<open>n\<close>-th one that passes.
\<close>

definition keep_passing ::
  "(VectorWithDistance \<Rightarrow> bool) \<Rightarrow> bool \<Rightarrow> nat \<Rightarrow> VectorWithDistance list \<Rightarrow> VectorWithDistance list" where
  "keep_passing pass range_search n r =
     (if range_search then filter pass r else take n (filter pass r))"

fun upto_nth_passing :: "('a \<Rightarrow> bool) \<Rightarrow> nat \<Rightarrow> 'a list \<Rightarrow> 'a list" where
  "upto_nth_passing pass 0 cs = []"
| "upto_nth_passing pass (Suc n) [] = []"
| "upto_nth_passing pass (Suc n) (c # cs) =
     c # (if pass c then upto_nth_passing pass n cs else upto_nth_passing pass (Suc n) cs)"

definition examined ::
  "(VectorWithDistance \<Rightarrow> bool) \<Rightarrow> bool \<Rightarrow> nat \<Rightarrow> VectorWithDistance list \<Rightarrow> VectorWithDistance list" where
  "examined pass range_search n r = (if range_search then r else upto_nth_passing pass n r)"

text \<open>
  An index that returns at most \<open>topk\<close> of six candidates, ids 1 to 6, and a store
  whose scalar record of an id says whether the id is even or odd; the vector 5 has no
  scalar record.
\<close>

definition id_candidate :: "int \<Rightarrow> VectorWithDistance" where
  "id_candidate i = \<lparr>vwd_vector_with_id = empty_VectorWithId\<lparr>vw_id := i\<rparr>, vwd_distance = of_int i\<rparr>"

definition six_idx :: index_env where
  "six_idx = echo_idx\<lparr>IndexSearch :=
     (\<lambda>qs topk fs r. (OK, map (\<lambda>q. map id_candidate (take (unat topk) [1, 2, 3, 4, 5, 6])) qs))\<rparr>"

definition parity_env :: reader_env where
  "parity_env = q_env\<lparr>
     KvGet := (\<lambda>cf t k. if k = ''none'' then (EKEY_NOT_FOUND, []) else (OK, k)),
     PackageVectorKey :=
       (\<lambda>c p i. if i = 5 then ''none'' else if i mod 2 = 0 then ''even'' else ''odd''),
     ParseScalardata := (\<lambda>s. Some [(''parity'', s)])\<rparr>"

definition even_query :: VectorWithId where
  "even_query = a_query\<lparr>vw_scalar_data := Some [(''parity'', ''even'')]\<rparr>"

subsection \<open>The batches of a scan\<close>














definition stored :: "int \<Rightarrow> VectorWithDistance" where
  "stored i =
     \<lparr>vwd_vector_with_id =
        \<lparr>vw_id = i, vw_vector = Some \<lparr>float_values = [1, 0], binary_values = []\<rparr>,
         vw_scalar_data = None, vw_table_data = None\<rparr>,
      vwd_distance = 0\<rparr>"






section \<open>Timestamp provider (mvcc/ts_provider.cc)\<close>


record BatchTs =
  physical :: int
  cursor :: int
  end_ts :: int
  create_time :: int
















definition nodes_inv :: "int \<Rightarrow> int \<Rightarrow> BatchTs list \<Rightarrow> bool" where
  "nodes_inv lo hi ns =
     (sorted_wrt (\<lambda>a b. end_ts a \<le> cursor b) ns \<and>
      list_all (\<lambda>n. lo \<le> cursor n \<and> end_ts n \<le> hi) ns \<and> lo \<le> hi)"







subsection \<open>Exact search\<close>





text \<open>Inserting into a sorted list that keeps at most \<open>k\<close> elements.\<close>

definition bounded_insort :: "('a \<Rightarrow> 'k::linorder) \<Rightarrow> nat \<Rightarrow> 'a \<Rightarrow> 'a list \<Rightarrow> 'a list" where
  "bounded_insort f k y q = take k (insort_key f y q)"











section \<open>Properties of the split checker\<close>

lemma walk_stream: "walk body m s = foldl body s (stream m)"
proof (induction body m s rule: walk.induct)
  case (1 body m s)
  show ?case
  proof (cases "Valid m")
    case True
    then show ?thesis
      using "1.IH" by (subst walk.simps, subst stream.simps) simp
  next
    case False
    then show ?thesis
      by (subst walk.simps, subst stream.simps) simp
  qed
qed

lemma total_size_nonneg: "0 \<le> total_size es"
  by (induction es) (simp_all add: total_size_def)

lemma total_size_Cons: "total_size (e # es) = int (EntryKeyValueSize e) + total_size es"
  by (simp add: total_size_def)

lemma half_foldl_size: "h_size (foldl (half_body c) s es) = h_size s + total_size es"
  by (induction es arbitrary: s) (auto simp: total_size_def half_body_def Let_def)

lemma half_foldl_keys:
  "h_keys (foldl (half_body c) s es) =
   h_keys s @ chunk_candidates (split_chunk_size c) (h_chunk_size s) es"
  by (induction es arbitrary: s) (auto simp: half_body_def Let_def)

lemma half_foldl_is_split:
  "h_is_split (foldl (half_body c) s es) =
   (h_is_split s \<or> (es \<noteq> [] \<and> split_threshold_size c \<le> h_size s + total_size es))"
proof (induction es arbitrary: s)
  case Nil
  show ?case by simp
next
  case (Cons e es)
  have sz: "h_size (half_body c s e) = h_size s + int (EntryKeyValueSize e)"
    by (simp add: half_body_def Let_def)
  have sp: "h_is_split (half_body c s e) =
            (h_is_split s \<or> split_threshold_size c \<le> h_size s + int (EntryKeyValueSize e))"
    by (simp add: half_body_def Let_def)
  have "h_is_split (foldl (half_body c) s (e # es)) =
        (h_is_split (half_body c s e) \<or>
         (es \<noteq> [] \<and> split_threshold_size c \<le> h_size (half_body c s e) + total_size es))"
    by (simp add: Cons.IH)
  also have "\<dots> = (h_is_split s \<or>
         split_threshold_size c \<le> h_size s + int (EntryKeyValueSize e) + total_size es)"
  proof (cases es)
    case Nil
    then show ?thesis by (simp add: sz sp total_size_def)
  next
    case (Cons a list)
    then show ?thesis
      using total_size_nonneg [of es] by (auto simp: sz sp)
  qed
  finally show ?case
    by (simp add: total_size_Cons add.assoc)
qed

lemma size_body_size: "s_size (size_body c s e) = s_size s + int (EntryKeyValueSize e)"
  by (simp add: size_body_def Let_def)

lemma size_foldl_size: "s_size (foldl (size_body c) s es) = s_size s + total_size es"
  by (induction es arbitrary: s) (simp_all add: size_body_size total_size_def)

lemma size_foldl_after_key:
  "s_split_key s \<noteq> [] \<Longrightarrow>
   s_split_key (foldl (size_body c) s es) = s_split_key s \<and>
   s_is_split (foldl (size_body c) s es) =
     (s_is_split s \<or> (es \<noteq> [] \<and> split_size c \<le> s_size s + total_size es))"
proof (induction es arbitrary: s)
  case Nil
  show ?case by simp
next
  case (Cons e es)
  have k: "s_split_key (size_body c s e) = s_split_key s"
    using Cons.prems by (simp add: size_body_def Let_def)
  have sp: "s_is_split (size_body c s e) =
            (s_is_split s \<or> split_size c \<le> s_size s + int (EntryKeyValueSize e))"
    using Cons.prems by (simp add: size_body_def Let_def)
  have ih: "s_split_key (foldl (size_body c) (size_body c s e) es) = s_split_key s \<and>
        s_is_split (foldl (size_body c) (size_body c s e) es) =
        (s_is_split (size_body c s e) \<or>
         (es \<noteq> [] \<and> split_size c \<le> s_size (size_body c s e) + total_size es))"
    using Cons.IH [of "size_body c s e"] Cons.prems k by simp
  have "(s_is_split (size_body c s e) \<or>
         (es \<noteq> [] \<and> split_size c \<le> s_size (size_body c s e) + total_size es)) =
        (s_is_split s \<or> split_size c \<le> s_size s + total_size (e # es))"
  proof (cases es)
    case Nil
    then show ?thesis by (simp add: sp size_body_size total_size_def)
  next
    case (Cons a list)
    then show ?thesis
      using total_size_nonneg [of es] by (auto simp: sp size_body_size total_size_Cons)
  qed
  then show ?case
    using ih by simp
qed

lemma size_foldl_before_key:
  assumes "s_split_key s = []" and "\<not> s_is_split s" and "split_pos c \<le> split_size c"
    and "\<forall>e\<in>set es. key e \<noteq> []"
  shows "size_result (foldl (size_body c) s es) =
     (case first_reach (split_pos c) (s_size s) es of
        None \<Rightarrow> []
      | Some j \<Rightarrow> if split_size c \<le> s_size s + total_size es \<and> Suc j < length es
                  then key (es ! j) else [])"
  using assms
proof (induction es arbitrary: s)
  case Nil
  then show ?case by (simp add: size_result_def)
next
  case (Cons e es)
  show ?case
  proof (cases "split_pos c \<le> s_size s + int (EntryKeyValueSize e)")
    case True
    have k: "s_split_key (size_body c s e) = key e"
      using True Cons.prems by (simp add: size_body_def Let_def)
    have sp: "\<not> s_is_split (size_body c s e)"
      using True Cons.prems by (simp add: size_body_def Let_def)
    have ne: "key e \<noteq> []"
      using Cons.prems by simp
    have "s_split_key (foldl (size_body c) (size_body c s e) es) = key e \<and>
          s_is_split (foldl (size_body c) (size_body c s e) es) =
            (es \<noteq> [] \<and> split_size c \<le> s_size (size_body c s e) + total_size es)"
      using size_foldl_after_key [of "size_body c s e" c es] k sp ne by simp
    then show ?thesis
      using True by (auto simp: size_result_def size_body_size total_size_Cons)
  next
    case False
    have k: "s_split_key (size_body c s e) = []"
      using False Cons.prems by (simp add: size_body_def Let_def)
    have sp: "\<not> s_is_split (size_body c s e)"
      using False Cons.prems by (simp add: size_body_def Let_def)
    have "size_result (foldl (size_body c) (size_body c s e) es) =
       (case first_reach (split_pos c) (s_size (size_body c s e)) es of
          None \<Rightarrow> []
        | Some j \<Rightarrow> if split_size c \<le> s_size (size_body c s e) + total_size es \<and> Suc j < length es
                    then key (es ! j) else [])"
      using Cons.IH [of "size_body c s e"] k sp Cons.prems by simp
    then show ?thesis
      using False
      by (auto simp: size_body_size total_size_Cons add.assoc split: option.splits)
  qed
qed


lemma keys_inv_NextIter: "keys_inv Q m \<Longrightarrow> keys_inv Q (NextIter i m)"
proof (cases "i < length (iters m)")
  case False
  assume "keys_inv Q m"
  then show ?thesis using False by (simp add: NextIter_def)
next
  case True
  assume inv: "keys_inv Q m"
  show ?thesis
  proof (cases "iters m ! i")
    case Nil
    then show ?thesis using inv by (simp add: NextIter_def)
  next
    case (Cons kv rest)
    have mem: "iters m ! i \<in> set (iters m)"
      using True by simp
    have hd_ok: "Q (fst kv)" and rest_ok: "\<forall>x\<in>set rest. Q (fst x)"
      using inv mem Cons by (auto simp: keys_inv_def)
    have upd: "\<forall>it\<in>set ((iters m)[i := rest]). \<forall>x\<in>set it. Q (fst x)"
    proof
      fix it assume "it \<in> set ((iters m)[i := rest])"
      then have "it = rest \<or> it \<in> set (iters m)"
        using set_update_subset_insert [of "iters m" i rest] by auto
      then show "\<forall>x\<in>set it. Q (fst x)"
        using rest_ok inv by (auto simp: keys_inv_def)
    qed
    show ?thesis
      using True Cons inv hd_ok upd
      by (cases kv) (auto simp: NextIter_def keys_inv_def heap_push_def set_insort_key)
  qed
qed

lemma keys_inv_Next: "keys_inv Q m \<Longrightarrow> keys_inv Q (Next m)"
proof (cases "min_heap m")
  case Nil
  assume "keys_inv Q m"
  then show ?thesis using Nil by (simp add: Next_def)
next
  case (Cons e h)
  assume "keys_inv Q m"
  then have "keys_inv Q (m\<lparr>min_heap := h\<rparr>)"
    using Cons by (simp add: keys_inv_def)
  then show ?thesis
    using Cons by (simp add: Next_def keys_inv_NextIter)
qed

lemma keys_inv_stream: "keys_inv Q m \<Longrightarrow> \<forall>e\<in>set (stream m). Q (key e)"
proof (induction m rule: stream.induct)
  case (1 m)
  show ?case
  proof (cases "Valid m")
    case False
    then show ?thesis by (subst stream.simps) simp
  next
    case True
    then have "hd (min_heap m) \<in> set (min_heap m)"
      by (simp add: Valid_def)
    then have "Q (key (hd (min_heap m)))"
      using "1.prems" by (simp add: keys_inv_def)
    moreover have "\<forall>e\<in>set (stream (Next m)). Q (key e)"
      using "1.IH" True "1.prems" keys_inv_Next by blast
    ultimately show ?thesis
      using True by (subst stream.simps) simp
  qed
qed

lemma keys_inv_SeekOne: "keys_inv Q m \<Longrightarrow> keys_inv Q (SeekOne target m i)"
proof -
  assume inv: "keys_inv Q m"
  have "\<forall>it\<in>set ((iters m)[i := IterSeek (iters m ! i) target]). \<forall>x\<in>set it. Q (fst x)"
  proof (cases "i < length (iters m)")
    case False
    then have "(iters m)[i := IterSeek (iters m ! i) target] = iters m"
      by (simp add: list_update_beyond not_less)
    then show ?thesis using inv by (simp add: keys_inv_def)
  next
    case True
    then have mem: "iters m ! i \<in> set (iters m)" by simp
    show ?thesis
    proof
      fix it assume "it \<in> set ((iters m)[i := IterSeek (iters m ! i) target])"
      then have "it = IterSeek (iters m ! i) target \<or> it \<in> set (iters m)"
        using set_update_subset_insert [of "iters m" i] by auto
      then show "\<forall>x\<in>set it. Q (fst x)"
        using inv mem by (auto simp: keys_inv_def IterSeek_def dest: set_dropWhileD)
    qed
  qed
  then have "keys_inv Q (m\<lparr>iters := (iters m)[i := IterSeek (iters m ! i) target]\<rparr>)"
    using inv by (simp add: keys_inv_def)
  then show ?thesis
    by (simp add: SeekOne_def keys_inv_NextIter)
qed

lemma keys_inv_foldl_SeekOne: "keys_inv Q m \<Longrightarrow> keys_inv Q (foldl (SeekOne target) m is)"
  by (induction "is" arbitrary: m) (simp_all add: keys_inv_SeekOne)

lemma keys_inv_Seek: "keys_inv Q m \<Longrightarrow> keys_inv Q (Seek m target)"
  by (simp add: Seek_def keys_inv_foldl_SeekOne)

lemma region_stream_keys:
  assumes "\<forall>cf\<in>set cfs. \<forall>kv\<in>set cf. Q (fst kv)"
  shows "\<forall>e\<in>set (region_stream rng cfs). Q (key e)"
proof -
  have "keys_inv Q (MergedIterator_new cfs (end_key rng))"
    using assms by (auto simp: keys_inv_def MergedIterator_new_def NewIterator_def dest: set_takeWhileD)
  then show ?thesis
    unfolding region_stream_def by (intro keys_inv_stream keys_inv_Seek)
qed

lemma region_stream_upper_bound: "\<forall>e\<in>set (region_stream rng cfs). key e < end_key rng"
proof -
  have "keys_inv (\<lambda>k. k < end_key rng) (MergedIterator_new cfs (end_key rng))"
    by (auto simp: keys_inv_def MergedIterator_new_def NewIterator_def dest: set_takeWhileD)
  then show ?thesis
    unfolding region_stream_def by (intro keys_inv_stream keys_inv_Seek)
qed

lemma region_walk:
  "walk body (Seek (MergedIterator_new cfs (end_key rng)) (start_key rng)) s =
   foldl body s (region_stream rng cfs)"
  by (simp add: walk_stream region_stream_def)

lemma chunk_candidates_keys: "set (chunk_candidates ch acc es) \<subseteq> key ` set es"
  by (induction es arbitrary: acc) auto

lemma size_foldl_key_from:
  "s_split_key (foldl (size_body c) s es) = s_split_key s \<or>
   s_split_key (foldl (size_body c) s es) \<in> key ` set es"
proof (induction es arbitrary: s)
  case Nil
  show ?case by simp
next
  case (Cons e es)
  have "s_split_key (size_body c s e) = s_split_key s \<or> s_split_key (size_body c s e) = key e"
    by (simp add: size_body_def Let_def)
  then show ?case
    using Cons.IH [of "size_body c s e"] by auto
qed

lemma HalfSplitKey_from_stream:
  "fst (HalfSplitKey c rng cfs 0 0) = [] \<or>
   fst (HalfSplitKey c rng cfs 0 0) \<in> key ` set (region_stream rng cfs)"
proof -
  let ?cands = "chunk_candidates (split_chunk_size c) 0 (region_stream rng cfs)"
  have "?cands \<noteq> [] \<Longrightarrow> ?cands ! (length ?cands div 2) \<in> set ?cands"
    by (intro nth_mem) simp
  then have "?cands \<noteq> [] \<Longrightarrow> ?cands ! (length ?cands div 2) \<in> key ` set (region_stream rng cfs)"
    using chunk_candidates_keys by blast
  then show ?thesis
    by (auto simp: HalfSplitKey_def region_walk Let_def half_foldl_keys)
qed

lemma SizeSplitKey_from_stream:
  "fst (SizeSplitKey c rng cfs 0 0) = [] \<or>
   fst (SizeSplitKey c rng cfs 0 0) \<in> key ` set (region_stream rng cfs)"
  using size_foldl_key_from
    [of c "\<lparr>s_size = 0, s_split_key = [], s_is_split = False, s_prev_key = [], s_count = 0\<rparr>"
        "region_stream rng cfs"]
  by (auto simp: SizeSplitKey_def region_walk Let_def)

lemmas merged_iterator_eval =
  region_stream_def MergedIterator_new_def NewIterator_def Seek_def SeekOne_def IterSeek_def
  NextIter_def Next_def Valid_def heap_push_def stream.simps

lemma c3_stream:
  "region_stream c3_range c3_cfs =
   [\<lparr>iter_pos = 0, key = ''a'', value_size = 3\<rparr>, \<lparr>iter_pos = 0, key = ''b'', value_size = 7\<rparr>]"
  by (simp add: merged_iterator_eval c3_cfs_def c3_range_def)

lemma ex_stream:
  "region_stream c3_range ex_cfs =
   [\<lparr>iter_pos = 0, key = ''a'', value_size = 2\<rparr>, \<lparr>iter_pos = 1, key = ''b'', value_size = 5\<rparr>,
    \<lparr>iter_pos = 0, key = ''c'', value_size = 2\<rparr>]"
  by (simp add: merged_iterator_eval ex_cfs_def c3_range_def)

lemmas float_eval =
  float_round_def float_mul_def round_shift_def bit_length_def float_to_int64_def
  split_pos_value_def log2_floor.simps Let_def

text \<open>
  Two products that are not exact in single precision: \<open>16777217\<close> is no \<open>float\<close>,
  and the product of 100 MiB and the \<open>float\<close> nearest to \<open>0.6\<close>, which is
  \<open>62914562.5\<close>, is rounded to a multiple of 4.
\<close>

lemma split_pos_value_examples:
  "split_pos_value \<lparr>split_size = 16777217, split_ratio = \<lparr>mantissa = 1, exponent = 0\<rparr>\<rparr> =
     Some 16777216"
  "float_round 3 (- 1) = Some \<lparr>mantissa = 3, exponent = - 1\<rparr>"
  "split_pos_value \<lparr>split_size = 104857600, split_ratio = \<lparr>mantissa = 10066330, exponent = - 24\<rparr>\<rparr> =
     Some 62914564"
  by (simp_all add: float_eval)

lemma c3_pos_value: "split_pos_value c3_checker = Some 5"
  by (simp add: c3_checker_def float_eval)

lemma c3_pos: "split_pos c3_checker = 5"
  by (simp add: split_pos_def c3_pos_value)

lemma c3_ratio: "float_value (split_ratio c3_checker) = 1 / 2"
  by (simp add: c3_checker_def float_value_def pow2_def)

lemma c3_size: "split_size c3_checker = 10"
  by (simp add: c3_checker_def)

lemma ex_SizeSplitKey: "fst (SizeSplitKey c3_checker c3_range ex_cfs 0 0) = ''b''"
  by (simp add: SizeSplitKey_def region_walk ex_stream c3_pos c3_size size_body_def Let_def
        EntryKeyValueSize_def)

text \<open>
  C4. Under the HALF policy the walk records the current key as a candidate each time
  another \<open>split_chunk_size\<close> bytes of key and value data have been accumulated, and
  returns the candidate at index \<open>length candidates div 2\<close> when the total accumulated
  size reaches \<open>split_threshold_size\<close>; otherwise, and when no candidate was recorded,
  it returns the empty string.
\<close>

theorem HalfSplitKey_middle_candidate:
  "fst (HalfSplitKey c rng cfs 0 0) =
     (let es = region_stream rng cfs;
          candidates = chunk_candidates (split_chunk_size c) 0 es
      in if split_threshold_size c \<le> total_size es \<and> candidates \<noteq> []
         then candidates ! (length candidates div 2) else [])"
proof -
  have "chunk_candidates ch acc [] = []" for ch acc by simp
  then show ?thesis
    by (auto simp: HalfSplitKey_def region_walk Let_def half_foldl_keys
                half_foldl_is_split half_foldl_size)
qed

text \<open>
  C3, as stated, fails: in the region \<open>c3_cfs\<close> the accumulated size reaches both
  \<open>threshold \<times> split_ratio = 5\<close> (a product that is exact in single precision) and the
  threshold \<open>10\<close> at the last entry \<open>b\<close>. The spec's rule gives the split key \<open>b\<close>;
  \<open>SizeSplitChecker::SplitKey\<close> returns the empty string, because the threshold test
  is the \<open>else\<close> branch of the test that sets the split key.
\<close>

theorem SizeSplitKey_commit_counterexample:
  "split_pos_value c3_checker = Some 5 \<and>
   split_size c3_checker \<le> total_size (region_stream c3_range c3_cfs) \<and>
   SizeSplitKey_spec c3_checker (region_stream c3_range c3_cfs) = ''b'' \<and>
   fst (SizeSplitKey c3_checker c3_range c3_cfs 0 0) = []"
  by (simp add: SizeSplitKey_def SizeSplitKey_spec_def region_walk c3_stream c3_pos c3_size c3_ratio
        c3_pos_value size_body_def Let_def EntryKeyValueSize_def total_size_def)

text \<open>
  C3, amended. Let \<open>pos\<close> be the split position of the code, the product
  \<open>threshold \<times> split_ratio\<close> taken in single precision and truncated to an \<open>int64_t\<close>.
  With no empty key in the column families and \<open>pos \<le> threshold\<close>, the SIZE walk
  returns the first key at which the accumulated key and value size reaches \<open>pos\<close>
  exactly when the total accumulated size reaches the threshold and that key is not the
  last entry of the walk; otherwise it returns the empty string.
\<close>

theorem SizeSplitKey_first_reach:
  assumes "\<forall>cf\<in>set cfs. \<forall>kv\<in>set cf. fst kv \<noteq> []"
    and "split_pos_value c = Some pos" and "pos \<le> split_size c"
  shows "fst (SizeSplitKey c rng cfs 0 0) =
     (let es = region_stream rng cfs
      in case first_reach pos 0 es of
           None \<Rightarrow> []
         | Some j \<Rightarrow> if split_size c \<le> total_size es \<and> Suc j < length es
                     then key (es ! j) else [])"
proof -
  let ?s0 = "\<lparr>s_size = 0, s_split_key = [], s_is_split = False, s_prev_key = [], s_count = 0\<rparr>"
  let ?es = "region_stream rng cfs"
  have pos: "split_pos c = pos"
    using assms(2) by (simp add: split_pos_def)
  have ne: "\<forall>e\<in>set ?es. key e \<noteq> []"
    using assms(1) by (rule region_stream_keys)
  have w: "walk (size_body c) (Seek (MergedIterator_new cfs (end_key rng)) (start_key rng)) ?s0 =
           foldl (size_body c) ?s0 ?es"
    by (rule region_walk)
  have "fst (SizeSplitKey c rng cfs 0 0) = size_result (foldl (size_body c) ?s0 ?es)"
    by (simp add: SizeSplitKey_def Let_def size_result_def w)
  also have "\<dots> =
     (case first_reach pos 0 ?es of
        None \<Rightarrow> []
      | Some j \<Rightarrow> if split_size c \<le> total_size ?es \<and> Suc j < length ?es
                  then key (?es ! j) else [])"
    using size_foldl_before_key [of ?s0 c ?es] assms(3) ne pos
    by (simp cong: option.case_cong)
  finally show ?thesis
    by (simp add: Let_def)
qed

theorem SizeSplitKey_first_reach_witness:
  "split_pos_value c3_checker = Some 5 \<and> 5 \<le> split_size c3_checker \<and>
   first_reach 5 0 (region_stream c3_range ex_cfs) = Some 1 \<and>
   split_size c3_checker \<le> total_size (region_stream c3_range ex_cfs) \<and>
   fst (SizeSplitKey c3_checker c3_range ex_cfs 0 0) = ''b''"
proof -
  have h1: "\<forall>cf\<in>set ex_cfs. \<forall>kv\<in>set cf. fst kv \<noteq> []"
    by (simp add: ex_cfs_def)
  have h3: "5 \<le> split_size c3_checker"
    by (simp add: c3_size)
  have fr: "first_reach 5 0 (region_stream c3_range ex_cfs) = Some 1"
    by (simp add: ex_stream EntryKeyValueSize_def)
  have tot: "total_size (region_stream c3_range ex_cfs) = 12"
    by (simp add: ex_stream total_size_def EntryKeyValueSize_def)
  have len: "length (region_stream c3_range ex_cfs) = 3"
    and nth: "key (region_stream c3_range ex_cfs ! Suc 0) = ''b''"
    by (simp_all add: ex_stream)
  have "fst (SizeSplitKey c3_checker c3_range ex_cfs 0 0) = ''b''"
    using SizeSplitKey_first_reach [OF h1 c3_pos_value h3, of c3_range]
    by (simp add: Let_def fr tot len nth c3_size)
  then show ?thesis
    using h3 fr tot by (simp add: c3_size c3_pos_value)
qed

text \<open>
  C5. A split check either dispatches no request, or the key of its \<open>SplitRegion\<close>
  request is not empty and lies in \<open>[start_key, end_key)\<close> of the region's range: the
  request is only sent for a key that passed \<open>CheckKeyInRange\<close>. The merged iterator is
  bounded above by the end key of the range it walks, so the key returned by the HALF and
  SIZE policies is empty or below that end key.
\<close>

theorem SplitCheck_key_in_range:
  "(SplitCheck encode decode checker cfs region env = SplitRegionRequest k \<longrightarrow>
      k \<noteq> [] \<and>
      (\<exists>r. region = Some r \<and> start_key (r_range r) \<le> k \<and> k < end_key (r_range r))) \<and>
   (fst (HalfSplitKey hc rng cfs 0 0) = [] \<or> fst (HalfSplitKey hc rng cfs 0 0) < end_key rng) \<and>
   (fst (SizeSplitKey sc rng cfs 0 0) = [] \<or> fst (SizeSplitKey sc rng cfs 0 0) < end_key rng)"
proof -
  have a: "k \<noteq> [] \<and>
      (\<exists>r. region = Some r \<and> start_key (r_range r) \<le> k \<and> k < end_key (r_range r))"
    if "SplitCheck encode decode checker cfs region env = SplitRegionRequest k"
  proof -
    from that obtain r where r: "region = Some r" and chk: "split_checks r env k = None"
      by (auto simp: SplitCheck_def Let_def split: option.splits if_splits)
    from chk have "k \<noteq> []" and "CheckKeyInRange r k"
      by (auto simp: split_checks_def split: if_splits)
    then show ?thesis
      using r by (simp add: CheckKeyInRange_def)
  qed
  have b: "fst (HalfSplitKey hc rng cfs 0 0) = [] \<or> fst (HalfSplitKey hc rng cfs 0 0) < end_key rng"
    using HalfSplitKey_from_stream [of hc rng cfs] region_stream_upper_bound [of rng cfs] by auto
  have c: "fst (SizeSplitKey sc rng cfs 0 0) = [] \<or> fst (SizeSplitKey sc rng cfs 0 0) < end_key rng"
    using SizeSplitKey_from_stream [of sc rng cfs] region_stream_upper_bound [of rng cfs] by auto
  show ?thesis
    using a b c by blast
qed

theorem SplitCheck_key_in_range_witness:
  "SplitCheck (\<lambda>r. r) Some (Some (SizeSplitKey c3_checker)) ex_cfs (Some ex_region) ex_env =
     SplitRegionRequest ''b'' \<and>
   start_key (r_range ex_region) \<le> ''b'' \<and> ''b'' < end_key (r_range ex_region)"
proof -
  have chk: "split_checks ex_region ex_env ''b'' = None"
    by (simp add: split_checks_def ex_region_def ex_env_def CheckKeyInRange_def c3_range_def)
  have run: "SplitCheck (\<lambda>r. r) Some (Some (SizeSplitKey c3_checker)) ex_cfs (Some ex_region) ex_env =
     SplitRegionRequest ''b''"
  proof -
    have rng: "r_range ex_region = c3_range"
      by (simp add: ex_region_def)
    show ?thesis
      by (simp add: SplitCheck_def Let_def rng ex_SizeSplitKey chk)
  qed
  show ?thesis
    using SplitCheck_key_in_range
      [of "\<lambda>r. r" Some "Some (SizeSplitKey c3_checker)" ex_cfs "Some ex_region" ex_env "''b''"]
      run
    by simp
qed

section \<open>Properties of the raw engine writer\<close>

text \<open>
  C9. For a key that already exists in the store, \<open>KvPutIfAbsent\<close> returns the status
  \<open>OK\<close> with \<open>key_state\<close> false and leaves the store unchanged: the transaction is
  rolled back without a write, and the existing key is reported through the flag, not
  through an error status. (The key is not empty, as no writer stores an empty key, and
  the transaction begins and reads without an engine failure.)
\<close>

theorem KvPutIfAbsent_existing_key:
  assumes "db (fst kv) = Some v" and "fst kv \<noteq> []"
    and "\<not> begin_transaction_fails f" and "\<not> get_for_update_fails f"
  shows "KvPutIfAbsent f db kv key_state = (OK, False, db)"
  using assms
  by (simp add: KvPutIfAbsent_def KvCompareAndSetInternal_def GetForUpdate_def Let_def)

theorem KvPutIfAbsent_existing_key_witness:
  "ex_db ''key10'' = Some ''value10'' \<and>
   KvPutIfAbsent no_faults ex_db (''key10'', ''other'') True = (OK, False, ex_db)"
proof -
  have h: "ex_db (fst (''key10'', ''other'')) = Some ''value10''"
    by (simp add: ex_db_def)
  have "KvPutIfAbsent no_faults ex_db (''key10'', ''other'') True = (OK, False, ex_db)"
    using KvPutIfAbsent_existing_key [of ex_db "(''key10'', ''other'')" "''value10''" no_faults True] h
    by (simp add: no_faults_def)
  then show ?thesis
    using h by simp
qed

section \<open>Properties of the vector reader\<close>

subsection \<open>Batch query\<close>

lemma QueryVectorWithId_cases:
  assumes "stored_values_parse env"
  shows "\<exists>v. QueryVectorWithId env (ctx_ts ctx) (ctx_region_range ctx) (ctx_partition_id ctx) vid
              (ctx_with_vector_data ctx) empty_VectorWithId = Some (data_status env ctx vid, v) \<and>
             (if data_status env ctx vid = OK then vw_id v = vid else v = empty_VectorWithId)"
proof -
  let ?k = "PackageVectorKey env (GetKeyPrefix env (ctx_region_range ctx)) (ctx_partition_id ctx) vid"
  obtain st pv where kv: "KvGet env VectorDataCF (ctx_ts ctx) ?k = (st, pv)"
    by (cases "KvGet env VectorDataCF (ctx_ts ctx) ?k")
  have st: "data_status env ctx vid = st"
    by (simp add: data_status_def kv)
  show ?thesis
  proof (cases "st = OK")
    case False
    then show ?thesis
      by (simp add: QueryVectorWithId_def Let_def kv st)
  next
    case True
    then have "ParseVector env pv \<noteq> None"
      using assms kv by (auto simp: stored_values_parse_def)
    then obtain x where "ParseVector env pv = Some x" by auto
    then show ?thesis
      using True by (simp add: QueryVectorWithId_def Let_def kv st)
  qed
qed

lemma query_ids_entries:
  assumes "stored_values_parse env"
  shows "\<exists>vs. query_ids env ctx ids out = Some (out @ vs) \<and> length vs = length ids \<and>
     (\<forall>i<length ids. if data_status env ctx (ids ! i) = OK then vw_id (vs ! i) = ids ! i
                       else vs ! i = empty_VectorWithId)"
proof (induction ids arbitrary: out)
  case Nil
  show ?case by simp
next
  case (Cons vid rest)
  obtain v where q: "QueryVectorWithId env (ctx_ts ctx) (ctx_region_range ctx) (ctx_partition_id ctx) vid
              (ctx_with_vector_data ctx) empty_VectorWithId = Some (data_status env ctx vid, v)"
    and v: "if data_status env ctx vid = OK then vw_id v = vid else v = empty_VectorWithId"
    using QueryVectorWithId_cases [OF assms] by blast
  obtain vs where r: "query_ids env ctx rest (out @ [v]) = Some ((out @ [v]) @ vs)"
    and len: "length vs = length rest"
    and ent: "\<forall>i<length rest. if data_status env ctx (rest ! i) = OK then vw_id (vs ! i) = rest ! i
                       else vs ! i = empty_VectorWithId"
    using Cons.IH [of "out @ [v]"] by blast
  have "query_ids env ctx (vid # rest) out = Some (out @ (v # vs))"
    by (simp add: q r)
  moreover have "length (v # vs) = length (vid # rest)"
    by (simp add: len)
  moreover have "\<forall>i<length (vid # rest).
      if data_status env ctx ((vid # rest) ! i) = OK then vw_id ((v # vs) ! i) = (vid # rest) ! i
      else (v # vs) ! i = empty_VectorWithId"
  proof (intro allI impI)
    fix i assume "i < length (vid # rest)"
    then show "if data_status env ctx ((vid # rest) ! i) = OK
               then vw_id ((v # vs) ! i) = (vid # rest) ! i
               else (v # vs) ! i = empty_VectorWithId"
      using v ent by (cases i) auto
  qed
  ultimately show ?case by blast
qed

lemma attach_each_entries:
  assumes "\<And>v. \<exists>st v'. q v = Some (st, v') \<and> vw_id v' = vw_id v"
  shows "\<exists>vs'. attach_each q vs = Some vs' \<and> length vs' = length vs \<and>
     (\<forall>i<length vs. vw_id (vs' ! i) = vw_id (vs ! i) \<and>
                     (vs ! i = empty_VectorWithId \<longrightarrow> vs' ! i = empty_VectorWithId))"
proof (induction vs)
  case Nil
  show ?case by simp
next
  case (Cons v vs)
  obtain vs' where r: "attach_each q vs = Some vs'" and len: "length vs' = length vs"
    and ent: "\<forall>i<length vs. vw_id (vs' ! i) = vw_id (vs ! i) \<and>
                     (vs ! i = empty_VectorWithId \<longrightarrow> vs' ! i = empty_VectorWithId)"
    using Cons.IH by blast
  obtain st v' where qv: "q v = Some (st, v')" and idv: "vw_id v' = vw_id v"
    using assms by blast
  let ?h = "if ByteSizeLong_is_0 v then v else v'"
  have "attach_each q (v # vs) = Some (?h # vs')"
    by (simp add: r qv)
  moreover have "length (?h # vs') = length (v # vs)"
    by (simp add: len)
  moreover have "\<forall>i<length (v # vs). vw_id ((?h # vs') ! i) = vw_id ((v # vs) ! i) \<and>
                     ((v # vs) ! i = empty_VectorWithId \<longrightarrow> (?h # vs') ! i = empty_VectorWithId)"
  proof (intro allI impI)
    fix i assume "i < length (v # vs)"
    then show "vw_id ((?h # vs') ! i) = vw_id ((v # vs) ! i) \<and>
                     ((v # vs) ! i = empty_VectorWithId \<longrightarrow> (?h # vs') ! i = empty_VectorWithId)"
      using ent idv by (cases i) (auto simp: ByteSizeLong_is_0_def)
  qed
  ultimately show ?case by blast
qed

lemma QueryVectorScalarData_id:
  assumes "stored_values_parse env"
  shows "\<exists>st v'. QueryVectorScalarData env t r p ks v = Some (st, v') \<and> vw_id v' = vw_id v"
proof -
  let ?k = "PackageVectorKey env (GetKeyPrefix env r) p (vw_id v)"
  obtain st pv where kv: "KvGet env VectorScalarCF t ?k = (st, pv)"
    by (cases "KvGet env VectorScalarCF t ?k")
  show ?thesis
  proof (cases "st = OK")
    case False
    then show ?thesis
      by (simp add: QueryVectorScalarData_def Let_def kv)
  next
    case True
    then have "ParseScalardata env pv \<noteq> None"
      using assms kv by (auto simp: stored_values_parse_def)
    then obtain x where "ParseScalardata env pv = Some x" by auto
    then show ?thesis
      using True by (simp add: QueryVectorScalarData_def Let_def kv)
  qed
qed

lemma QueryVectorTableData_id:
  assumes "stored_values_parse env"
  shows "\<exists>st v'. QueryVectorTableData env t r p v = Some (st, v') \<and> vw_id v' = vw_id v"
proof -
  let ?k = "PackageVectorKey env (first_char (start_key r)) p (vw_id v)"
  obtain st pv where kv: "KvGet env VectorTableCF t ?k = (st, pv)"
    by (cases "KvGet env VectorTableCF t ?k")
  show ?thesis
  proof (cases "st = OK")
    case False
    then show ?thesis
      by (simp add: QueryVectorTableData_def Let_def kv)
  next
    case True
    then have "ParseTableData env pv \<noteq> None"
      using assms kv by (auto simp: stored_values_parse_def)
    then obtain x where "ParseTableData env pv = Some x" by auto
    then show ?thesis
      using True by (simp add: QueryVectorTableData_def Let_def kv)
  qed
qed

text \<open>
  C10. \<open>VectorBatchQuery\<close> never returns a status other than \<open>OK\<close>; and, the stored
  values being well-formed, it returns \<open>OK\<close> with exactly one entry per requested
  vector id, in request order: the entry of an id that the data column family has
  carries that id, the entry of an id it does not have is the empty \<open>VectorWithId\<close>.
\<close>

theorem VectorBatchQuery_one_entry_per_id:
  "(\<forall>st out. VectorBatchQuery env ctx out0 = Some (st, out) \<longrightarrow> st = OK) \<and>
   (stored_values_parse env \<longrightarrow>
      (\<exists>out. VectorBatchQuery env ctx [] = Some (OK, out) \<and>
         length out = length (ctx_vector_ids ctx) \<and>
         (\<forall>i<length (ctx_vector_ids ctx).
            if data_status env ctx (ctx_vector_ids ctx ! i) = OK
            then vw_id (out ! i) = ctx_vector_ids ctx ! i
            else out ! i = empty_VectorWithId)))"
proof (intro conjI impI)
  show "\<forall>st out. VectorBatchQuery env ctx out0 = Some (st, out) \<longrightarrow> st = OK"
    by (auto simp: VectorBatchQuery_def split: option.splits if_splits)
next
  assume wf: "stored_values_parse env"
  let ?ids = "ctx_vector_ids ctx"
  obtain vs1 where q1: "query_ids env ctx ?ids [] = Some vs1" and len1: "length vs1 = length ?ids"
    and ent1: "\<forall>i<length ?ids. if data_status env ctx (?ids ! i) = OK then vw_id (vs1 ! i) = ?ids ! i
                       else vs1 ! i = empty_VectorWithId"
    using query_ids_entries [OF wf, of ctx ?ids "[]"] by auto
  let ?s = "if ctx_with_scalar_data ctx
            then attach_each (QueryVectorScalarData env (ctx_ts ctx) (ctx_region_range ctx)
                   (ctx_partition_id ctx) (ctx_selected_scalar_keys ctx)) vs1
            else Some vs1"
  obtain vs2 where q2: "?s = Some vs2" and len2: "length vs2 = length vs1"
    and ent2: "\<forall>i<length vs1. vw_id (vs2 ! i) = vw_id (vs1 ! i) \<and>
                     (vs1 ! i = empty_VectorWithId \<longrightarrow> vs2 ! i = empty_VectorWithId)"
    using attach_each_entries
      [of "QueryVectorScalarData env (ctx_ts ctx) (ctx_region_range ctx) (ctx_partition_id ctx)
             (ctx_selected_scalar_keys ctx)" vs1]
      QueryVectorScalarData_id [OF wf]
    by (cases "ctx_with_scalar_data ctx") auto
  let ?t = "if ctx_with_table_data ctx
            then attach_each (QueryVectorTableData env (ctx_ts ctx) (ctx_region_range ctx)
                   (ctx_partition_id ctx)) vs2
            else Some vs2"
  obtain vs3 where q3: "?t = Some vs3" and len3: "length vs3 = length vs2"
    and ent3: "\<forall>i<length vs2. vw_id (vs3 ! i) = vw_id (vs2 ! i) \<and>
                     (vs2 ! i = empty_VectorWithId \<longrightarrow> vs3 ! i = empty_VectorWithId)"
    using attach_each_entries
      [of "QueryVectorTableData env (ctx_ts ctx) (ctx_region_range ctx) (ctx_partition_id ctx)" vs2]
      QueryVectorTableData_id [OF wf]
    by (cases "ctx_with_table_data ctx") auto
  have run: "VectorBatchQuery env ctx [] = Some (OK, vs3)"
    using q1 q2 q3 by (simp add: VectorBatchQuery_def)
  have "\<forall>i<length ?ids. if data_status env ctx (?ids ! i) = OK then vw_id (vs3 ! i) = ?ids ! i
                       else vs3 ! i = empty_VectorWithId"
    using ent1 ent2 ent3 len1 len2 by (auto split: if_splits)
  then show "\<exists>out. VectorBatchQuery env ctx [] = Some (OK, out) \<and>
         length out = length ?ids \<and>
         (\<forall>i<length ?ids.
            if data_status env ctx (?ids ! i) = OK
            then vw_id (out ! i) = ?ids ! i
            else out ! i = empty_VectorWithId)"
    using run len1 len2 len3 by auto
qed

lemma q_env_parse: "stored_values_parse q_env"
  by (simp add: stored_values_parse_def q_env_def)

theorem VectorBatchQuery_one_entry_per_id_witness:
  "stored_values_parse q_env \<and>
   data_status q_env q_ctx 1 = OK \<and> data_status q_env q_ctx 2 = EKEY_NOT_FOUND \<and>
   (\<exists>out. VectorBatchQuery q_env q_ctx [] = Some (OK, out) \<and> length out = 2 \<and>
      vw_id (out ! 0) = 1 \<and> out ! 1 = empty_VectorWithId)"
proof -
  have s1: "data_status q_env q_ctx 1 = OK" and s2: "data_status q_env q_ctx 2 = EKEY_NOT_FOUND"
    by (simp_all add: data_status_def q_env_def)
  have ids: "ctx_vector_ids q_ctx = [1, 2]"
    by (simp add: q_ctx_def)
  obtain out where run: "VectorBatchQuery q_env q_ctx [] = Some (OK, out)"
    and len: "length out = length (ctx_vector_ids q_ctx)"
    and ent: "\<forall>i<length (ctx_vector_ids q_ctx).
            if data_status q_env q_ctx (ctx_vector_ids q_ctx ! i) = OK
            then vw_id (out ! i) = ctx_vector_ids q_ctx ! i
            else out ! i = empty_VectorWithId"
    using VectorBatchQuery_one_entry_per_id [of q_env q_ctx "[]"] q_env_parse by blast
  have "vw_id (out ! 0) = 1"
    using ent [rule_format, of 0] s1 by (simp add: ids)
  moreover have "out ! 1 = empty_VectorWithId"
    using ent [rule_format, of 1] s2 by (simp add: ids)
  ultimately show ?thesis
    using run len s1 s2 q_env_parse by (auto simp: ids)
qed

subsection \<open>Search\<close>

text \<open>
  C8. For a batch-search request whose list of query vectors is empty, \<open>SearchVector\<close>
  returns the status \<open>OK\<close> and leaves the result list as it was, empty when the
  caller passed it empty; so does \<open>VectorBatchSearch\<close>.
\<close>

theorem SearchVector_empty_queries:
  "SearchVector env idx flags ts partition_id region_range [] param results = Some (OK, results) \<and>
   SearchVector env idx flags ts partition_id region_range [] param [] = Some (OK, []) \<and>
   VectorBatchSearch env idx flags (ctx\<lparr>ctx_vector_with_ids := []\<rparr>) [] = Some (OK, [])"
  by (simp add: SearchVector_def VectorBatchSearch_def)

lemma post_filter_range:
  assumes "\<forall>c\<in>set cs. \<exists>b. compare (vw_id (vwd_vector_with_id c)) = Some (OK, b)"
  shows "post_filter compare True n cs kept =
         Some (Inr (kept @ filter (\<lambda>c. compare (vw_id (vwd_vector_with_id c)) = Some (OK, True)) cs))"
  using assms by (induction cs arbitrary: kept) auto

lemma post_filter_topk:
  assumes "\<forall>c\<in>set (upto_nth_passing (\<lambda>c. compare (vw_id (vwd_vector_with_id c)) = Some (OK, True))
                      (n - length kept) cs).
             \<exists>b. compare (vw_id (vwd_vector_with_id c)) = Some (OK, b)"
    and "length kept < n"
  shows "post_filter compare False n cs kept =
         Some (Inr (kept @ take (n - length kept)
                 (filter (\<lambda>c. compare (vw_id (vwd_vector_with_id c)) = Some (OK, True)) cs)))"
  using assms
proof (induction cs arbitrary: kept)
  case Nil
  then show ?case by simp
next
  case (Cons c cs)
  let ?pass = "\<lambda>c. compare (vw_id (vwd_vector_with_id c)) = Some (OK, True)"
  obtain m where m: "n - length kept = Suc m"
    using Cons.prems(2) by (cases "n - length kept") simp_all
  have ex: "upto_nth_passing ?pass (Suc m) (c # cs) =
            c # (if ?pass c then upto_nth_passing ?pass m cs else upto_nth_passing ?pass (Suc m) cs)"
    by simp
  obtain b where b: "compare (vw_id (vwd_vector_with_id c)) = Some (OK, b)"
    using Cons.prems(1) unfolding m ex by auto
  show ?case
  proof (cases b)
    case False
    have "\<forall>c\<in>set (upto_nth_passing ?pass (n - length kept) cs).
            \<exists>b. compare (vw_id (vwd_vector_with_id c)) = Some (OK, b)"
      using Cons.prems(1) b False unfolding m ex by simp
    then show ?thesis
      using b False Cons.IH [OF _ Cons.prems(2)] by simp
  next
    case True
    show ?thesis
    proof (cases "n \<le> Suc (length kept)")
      case stop: True
      then have "m = 0"
        using m by simp
      then show ?thesis
        using b True stop m by simp
    next
      case go: False
      then have lt: "length (kept @ [c]) < n"
        by simp
      have m': "n - length (kept @ [c]) = m"
        using m by simp
      have "\<forall>c\<in>set (upto_nth_passing ?pass (n - length (kept @ [c])) cs).
            \<exists>b. compare (vw_id (vwd_vector_with_id c)) = Some (OK, b)"
        using Cons.prems(1) b True unfolding m m' ex by simp
      then have "post_filter compare False n cs (kept @ [c]) =
         Some (Inr ((kept @ [c]) @ take (n - length (kept @ [c])) (filter ?pass cs)))"
        using lt by (rule Cons.IH)
      then show ?thesis
        using b True go m m' by simp
    qed
  qed
qed

lemma post_filter_keep:
  assumes "\<forall>c\<in>set (examined (\<lambda>c. compare (vw_id (vwd_vector_with_id c)) = Some (OK, True)) rs n cs).
             \<exists>b. compare (vw_id (vwd_vector_with_id c)) = Some (OK, b)"
    and "0 < n"
  shows "post_filter compare rs n cs [] =
         Some (Inr (keep_passing (\<lambda>c. compare (vw_id (vwd_vector_with_id c)) = Some (OK, True)) rs n cs))"
proof (cases rs)
  case True
  then show ?thesis
    using post_filter_range [of cs compare n "[]"] assms(1) by (simp add: keep_passing_def examined_def)
next
  case False
  then show ?thesis
    using post_filter_topk [of compare n "[]" cs] assms by (simp add: keep_passing_def examined_def)
qed

lemma post_filter_all_keep:
  assumes "\<forall>r\<in>set tmp.
             \<forall>c\<in>set (examined (\<lambda>c. compare (vw_id (vwd_vector_with_id c)) = Some (OK, True)) rs n r).
               \<exists>b. compare (vw_id (vwd_vector_with_id c)) = Some (OK, b)"
    and "0 < n"
  shows "post_filter_all compare rs n tmp results =
         Some (OK, results @
           map (keep_passing (\<lambda>c. compare (vw_id (vwd_vector_with_id c)) = Some (OK, True)) rs n) tmp)"
  using assms(1)
proof (induction tmp arbitrary: results)
  case Nil
  show ?case by simp
next
  case (Cons r tmp)
  have "post_filter compare rs n r [] =
         Some (Inr (keep_passing (\<lambda>c. compare (vw_id (vwd_vector_with_id c)) = Some (OK, True)) rs n r))"
    using Cons.prems assms(2) by (intro post_filter_keep) simp_all
  then show ?case
    using Cons by simp
qed

lemma passes_eq:
  "passes env ts pid rng queries param c =
   (post_compare env ts pid rng queries param (vw_id (vwd_vector_with_id c)) = Some (OK, True))"
  by (auto simp: passes_def split: option.splits bool.splits)

text \<open>
  C6, as stated, fails: a request with \<open>SCALAR_FILTER\<close> and \<open>QUERY_POST\<close> that has
  neither scalar data in its first query nor a coprocessor is searched for \<open>top_n\<close>
  candidates, not \<open>top_n \<times> 10\<close>, and no scalar record is loaded: the index that echoes
  the \<open>topk\<close> it is asked for is asked for 2, and its candidate is returned over a store
  without scalar records, where the pipeline of the spec returns the status of the
  failed load.
\<close>

theorem SearchVector_post_filter_counterexample:
  "vector_filter c6_parameter = SCALAR_FILTER \<and> vector_filter_type c6_parameter = QUERY_POST \<and>
   SearchVector q_env echo_idx default_flags 0 0 c3_range [a_query] c6_parameter [] =
     Some (OK, [[echo_candidate 2]]) \<and>
   scalar_post_spec q_env echo_idx default_flags 0 0 c3_range [a_query] c6_parameter =
     Some (EKEY_NOT_FOUND, [])"
proof -
  have p: "vector_filter c6_parameter = SCALAR_FILTER" "vector_filter_type c6_parameter = QUERY_POST"
    "vector_coprocessor c6_parameter = None" "use_brute_force c6_parameter = False"
    "enable_range_search c6_parameter = False" "without_vector_data c6_parameter = True"
    "top_n c6_parameter = 2"
    by (simp_all add: c6_parameter_def q_parameter_def)
  have w: "SearchAndRangeSearchWrapper q_env echo_idx default_flags c3_range [a_query] c6_parameter []
             topk [] = Some (OK, [[echo_candidate topk]], [])" for topk
    by (simp add: SearchAndRangeSearchWrapper_def Let_def p echo_idx_def)
  have sz: "scalar_data_size (hd [a_query]) = 0"
    by (simp add: scalar_data_size_def a_query_def)
  have code: "SearchVector q_env echo_idx default_flags 0 0 c3_range [a_query] c6_parameter [] =
     Some (OK, [[echo_candidate 2]])"
    using sz by (simp add: SearchVector_def search_by_filter_def p w drop_warnings_def)
  have cmp: "post_compare q_env 0 0 c3_range [a_query] c6_parameter 20 = Some (EKEY_NOT_FOUND, False)"
    by (simp add: post_compare_def p CompareVectorScalarData_def Let_def q_env_def)
  have spec: "scalar_post_spec q_env echo_idx default_flags 0 0 c3_range [a_query] c6_parameter =
     Some (EKEY_NOT_FOUND, [])"
    by (simp add: scalar_post_spec_def p w drop_warnings_def echo_candidate_def cmp)
  show ?thesis
    using p(1,2) code spec by simp
qed

text \<open>
  C6, amended. A batch-search request with \<open>SCALAR_FILTER\<close> and \<open>QUERY_POST\<close> that
  has neither scalar data in its first query nor a coprocessor is searched for \<open>top_n\<close>
  candidates, and the result of that search is returned (with the vectors filled in
  unless the request is without vector data); no scalar record is loaded. A request that
  has scalar data in its first query or a coprocessor, with \<open>0 < top_n\<close> and
  \<open>top_n \<times> 10 < 2 ^ 32\<close>, is searched for \<open>top_n \<times> 10\<close> candidates per query; when
  that search returns \<open>OK\<close>, the coprocessor, if there is one, opens, and the scalar
  record of every candidate that is examined loads, each candidate examined is tested on
  its scalar record with the coprocessor expression, or else with the equality map of
  the first query, and the result of a query is, in the order of the candidates, the
  first \<open>top_n\<close> candidates that pass (the candidates after the \<open>top_n\<close>-th one that
  passes are not examined), or, with range search, all candidates that pass.
\<close>

theorem SearchVector_post_filter:
  assumes "queries \<noteq> []"
    and "vector_filter param = SCALAR_FILTER" and "vector_filter_type param = QUERY_POST"
  shows
    "(scalar_data_size (hd queries) = 0 \<and> vector_coprocessor param = None \<longrightarrow>
        SearchVector env idx flags ts partition_id region_range queries param results =
          (case SearchAndRangeSearchWrapper env idx flags region_range queries param results
                  (top_n param) [] of
             None \<Rightarrow> None
           | Some (status, found, w) \<Rightarrow>
               if status \<noteq> OK \<or> without_vector_data param then Some (status, found)
               else fill_vectors_all env ts region_range partition_id found)) \<and>
     ((scalar_data_size (hd queries) \<noteq> 0 \<or> vector_coprocessor param \<noteq> None) \<and>
      0 < unat (top_n param) \<and> unat (top_n param) * 10 < 2 ^ 32 \<and>
      SearchAndRangeSearchWrapper env idx flags region_range queries param []
        (top_n param * 10) [] = Some (OK, candidates, w) \<and>
      (\<forall>c. vector_coprocessor param = Some c \<longrightarrow> CoprocessorOpen env c = OK) \<and>
      (\<forall>r\<in>set candidates.
         \<forall>c\<in>set (examined (passes env ts partition_id region_range queries param)
                     (enable_range_search param) (unat (top_n param)) r).
           \<exists>b. post_compare env ts partition_id region_range queries param
                  (vw_id (vwd_vector_with_id c)) = Some (OK, b)) \<longrightarrow>
        SearchVector env idx flags ts partition_id region_range queries param results =
          (let kept = results @
                 map (keep_passing (passes env ts partition_id region_range queries param)
                        (enable_range_search param) (unat (top_n param))) candidates
           in if without_vector_data param then Some (OK, kept)
              else fill_vectors_all env ts region_range partition_id kept))"
proof -
  let ?cmp = "post_compare env ts partition_id region_range queries param"
  let ?pass = "passes env ts partition_id region_range queries param"
  have plain: "SearchVector env idx flags ts partition_id region_range queries param results =
          (case SearchAndRangeSearchWrapper env idx flags region_range queries param results
                  (top_n param) [] of
             None \<Rightarrow> None
           | Some (status, found, w) \<Rightarrow>
               if status \<noteq> OK \<or> without_vector_data param then Some (status, found)
               else fill_vectors_all env ts region_range partition_id found)"
    if "scalar_data_size (hd queries) = 0" and "vector_coprocessor param = None"
    using that assms
    by (auto simp: SearchVector_def search_by_filter_def drop_warnings_def split: option.splits)
  have post: "SearchVector env idx flags ts partition_id region_range queries param results =
          (let kept = results @
                 map (keep_passing ?pass (enable_range_search param) (unat (top_n param))) candidates
           in if without_vector_data param then Some (OK, kept)
              else fill_vectors_all env ts region_range partition_id kept)"
    if g: "scalar_data_size (hd queries) \<noteq> 0 \<or> vector_coprocessor param \<noteq> None"
      and n: "0 < unat (top_n param)"
      and wr: "SearchAndRangeSearchWrapper env idx flags region_range queries param []
                 (top_n param * 10) [] = Some (OK, candidates, w)"
      and op: "\<forall>c. vector_coprocessor param = Some c \<longrightarrow> CoprocessorOpen env c = OK"
      and ld: "\<forall>r\<in>set candidates.
         \<forall>c\<in>set (examined ?pass (enable_range_search param) (unat (top_n param)) r).
           \<exists>b. ?cmp (vw_id (vwd_vector_with_id c)) = Some (OK, b)"
  proof -
    have pf: "post_filter_all ?cmp (enable_range_search param) (unat (top_n param)) candidates results =
       Some (OK, results @
         map (keep_passing ?pass (enable_range_search param) (unat (top_n param))) candidates)"
      using post_filter_all_keep [of candidates ?cmp "enable_range_search param" "unat (top_n param)"]
        ld n
      by (simp add: passes_eq [abs_def])
    have sbf: "search_by_filter env idx flags ts partition_id region_range queries param results =
       post_filter_all ?cmp (enable_range_search param) (unat (top_n param)) candidates results"
    proof (cases "vector_coprocessor param")
      case None
      then have "?cmp = (\<lambda>temp_id. CompareVectorScalarData env ts region_range partition_id temp_id
                               (scalar_data_of (hd queries)))"
        by (intro ext) (simp add: post_compare_def)
      then show ?thesis
        using None assms(2,3) g wr by (simp add: search_by_filter_def drop_warnings_def)
    next
      case (Some c)
      then have "?cmp = (\<lambda>temp_id. CompareVectorScalarDataWithCoprocessor env ts region_range
                               partition_id temp_id c)"
        by (intro ext) (simp add: post_compare_def)
      then show ?thesis
        using Some assms(2,3) g wr op by (simp add: search_by_filter_def drop_warnings_def Let_def)
    qed
    show ?thesis
      using assms(1) by (simp add: SearchVector_def sbf pf Let_def)
  qed
  show ?thesis
    using plain post by blast
qed

theorem SearchVector_post_filter_witness:
  "SearchVector q_env echo_idx default_flags 0 0 c3_range [a_query] c6_parameter [] =
     Some (OK, [[echo_candidate 2]]) \<and>
   SearchAndRangeSearchWrapper parity_env six_idx default_flags c3_range [even_query] c6_parameter []
     (top_n c6_parameter * 10) [] =
     Some (OK, [map id_candidate [1, 2, 3, 4, 5, 6]], []) \<and>
   post_compare parity_env 0 0 c3_range [even_query] c6_parameter 5 = Some (EKEY_NOT_FOUND, False) \<and>
   SearchVector parity_env six_idx default_flags 0 0 c3_range [even_query] c6_parameter [] =
     Some (OK, [[id_candidate 2, id_candidate 4]])"
proof -
  have p: "vector_filter c6_parameter = SCALAR_FILTER" "vector_filter_type c6_parameter = QUERY_POST"
    "vector_coprocessor c6_parameter = None" "use_brute_force c6_parameter = False"
    "enable_range_search c6_parameter = False" "without_vector_data c6_parameter = True"
    "top_n c6_parameter = 2"
    by (simp_all add: c6_parameter_def q_parameter_def)
  have w0: "SearchAndRangeSearchWrapper q_env echo_idx default_flags c3_range [a_query] c6_parameter []
             topk [] = Some (OK, [[echo_candidate topk]], [])" for topk
    by (simp add: SearchAndRangeSearchWrapper_def Let_def p echo_idx_def)
  have sz: "scalar_data_size (hd [a_query]) = 0"
    by (simp add: scalar_data_size_def a_query_def)
  have plain: "SearchVector q_env echo_idx default_flags 0 0 c3_range [a_query] c6_parameter [] =
     Some (OK, [[echo_candidate 2]])"
    using SearchVector_post_filter
      [of "[a_query]" c6_parameter q_env echo_idx default_flags 0 0 c3_range "[]"] sz
    by (simp add: p w0)
  have w: "SearchAndRangeSearchWrapper parity_env six_idx default_flags c3_range [even_query]
             c6_parameter [] (top_n c6_parameter * 10) [] =
           Some (OK, [map id_candidate [1, 2, 3, 4, 5, 6]], [])"
    by (simp add: SearchAndRangeSearchWrapper_def Let_def p six_idx_def echo_idx_def)
  have cmp: "post_compare parity_env 0 0 c3_range [even_query] c6_parameter i =
             (if i = 5 then Some (EKEY_NOT_FOUND, False) else Some (OK, i mod 2 = 0))" for i
    by (simp add: post_compare_def p CompareVectorScalarData_def Let_def parity_env_def q_env_def
          even_query_def a_query_def scalar_data_of_def)
  have pass: "passes parity_env 0 0 c3_range [even_query] c6_parameter (id_candidate i) =
              (i \<noteq> 5 \<and> i mod 2 = 0)" for i
    by (simp add: passes_eq cmp id_candidate_def empty_VectorWithId_def)
  have h4: "scalar_data_size (hd [even_query]) \<noteq> 0 \<or> vector_coprocessor c6_parameter \<noteq> None"
    by (simp add: scalar_data_size_def even_query_def a_query_def)
  have ex: "examined (passes parity_env 0 0 c3_range [even_query] c6_parameter) False 2
              (map id_candidate [1, 2, 3, 4, 5, 6]) = map id_candidate [1, 2, 3, 4]"
    by (simp add: examined_def pass numeral_2_eq_2)
  have h7: "\<forall>r\<in>set [map id_candidate [1, 2, 3, 4, 5, 6]].
     \<forall>c\<in>set (examined (passes parity_env 0 0 c3_range [even_query] c6_parameter)
                 (enable_range_search c6_parameter) (unat (top_n c6_parameter)) r).
       \<exists>b. post_compare parity_env 0 0 c3_range [even_query] c6_parameter (vw_id (vwd_vector_with_id c)) =
              Some (OK, b)"
    using ex by (auto simp: p cmp id_candidate_def empty_VectorWithId_def)
  have "SearchVector parity_env six_idx default_flags 0 0 c3_range [even_query] c6_parameter [] =
     Some (OK, [[id_candidate 2, id_candidate 4]])"
    using SearchVector_post_filter
      [of "[even_query]" c6_parameter parity_env six_idx default_flags 0 0 c3_range "[]"
          "[map id_candidate [1, 2, 3, 4, 5, 6]]" "[]"]
      p(1,2) h4 w h7
    by (simp add: p keep_passing_def pass)
  then show ?thesis
    using plain w cmp [of 5] by simp
qed

subsection \<open>Brute-force range search\<close>






























section \<open>Properties of the timestamp provider\<close>


lemma nodes_inv_mono: "nodes_inv lo hi ns \<Longrightarrow> lo' \<le> lo \<Longrightarrow> nodes_inv lo' hi ns"
  by (auto simp: nodes_inv_def list_all_iff)

















subsection \<open>Brute-force search\<close>

lemma take_Cons_take: "take k (s # take k xs) = take k (s # xs)"
  by (cases k) simp_all

lemma take_insort_key_take:
  "take k (insort_key f y (take k xs)) = take k (insort_key f y xs)"
proof (induction xs arbitrary: k)
  case Nil
  show ?case by simp
next
  case (Cons s xs)
  show ?case
  proof (cases k)
    case 0
    then show ?thesis by simp
  next
    case (Suc k')
    show ?thesis
    proof (cases "f y \<le> f s")
      case True
      then show ?thesis
        using Suc take_Cons_take [of k' s xs] by simp
    next
      case False
      then show ?thesis
        using Suc Cons.IH [of k'] by simp
    qed
  qed
qed

lemma bounded_insort_take: "bounded_insort f k y (take k q) = bounded_insort f k y q"
  by (simp add: bounded_insort_def take_insort_key_take)














































end
